theory Spec2Isabelle
  imports Complex_Main
begin

section \<open>Effective potentials in Schwarzschild spacetime: the model\<close>

text \<open>
  The two scripts \<^verbatim>\<open>schwarzschild_potential.py\<close> (massive test particle) and
  \<^verbatim>\<open>schwarzschild_potential_photon.py\<close> (photon) run top to bottom once per user
  interaction. Each block of a script is embedded as a function named after the
  component it implements.

  Floating-point numbers are idealised as real numbers: the rounding of a result that
  stays in the range of the floats, signed zeros and NaN are outside the model. A
  division whose divisor is zero is never left to \<open>x / 0 = 0\<close> of HOL:
  \<^item> on Python floats it raises \<^verbatim>\<open>ZeroDivisionError\<close>, which is a value \<open>Inl\<close> of the model;
  \<^item> on NumPy values it yields an infinity or a NaN and the script goes on; the model
    has \<open>None\<close> for such a value (no finite number).
  Where a run of a script depends on the range of the floats, the range is in the model:
  a power of a Python float raises \<^verbatim>\<open>OverflowError\<close> when its result is too large.
\<close>

datatype error = ZeroDivisionError | OverflowError

subsection \<open>The range of the floats\<close>

text \<open>
  In binary64 with rounding to nearest, a result of magnitude at least
  \<^verbatim>\<open>2^1024 - 2^970\<close> rounds to an infinity and a result of magnitude at most
  \<^verbatim>\<open>2^-1075\<close> rounds to zero.
\<close>

definition float_inf_threshold :: real where
  "float_inf_threshold = 2 ^ 1024 - 2 ^ 970"

definition float_zero_threshold :: real where
  "float_zero_threshold = 1 / 2 ^ 1075"

text \<open>
  \<^verbatim>\<open>x ** 2\<close> on a Python float: \<^verbatim>\<open>OverflowError\<close> when the square rounds to an infinity; a
  square that rounds to zero is returned as zero, without an exception.
\<close>

definition py_pow2 :: "real \<Rightarrow> error + real" where
  "py_pow2 x =
     (if float_inf_threshold \<le> x ^ 2 then Inl OverflowError
      else if x ^ 2 \<le> float_zero_threshold then Inr 0
      else Inr (x ^ 2))"

text \<open>
  \<^verbatim>\<open>a / b\<close> on Python floats: \<^verbatim>\<open>ZeroDivisionError\<close> for a zero divisor and no other
  exception; a quotient that rounds to an infinity is \<open>None\<close>.
\<close>

definition py_div :: "real \<Rightarrow> real \<Rightarrow> error + real option" where
  "py_div a b =
     (if b = 0 then Inl ZeroDivisionError
      else if float_inf_threshold \<le> \<bar>a / b\<bar> then Inr None
      else if \<bar>a / b\<bar> \<le> float_zero_threshold then Inr (Some 0)
      else Inr (Some (a / b)))"

subsection \<open>Input parser\<close>

text \<open>
  Characters are the code points below 256. \<^verbatim>\<open>str.strip()\<close> removes the characters for
  which \<^verbatim>\<open>str.isspace\<close> holds: in this range the code points 9 to 13, 28 to 32, 133
  and 160.
\<close>

definition is_space :: "char \<Rightarrow> bool" where
  "is_space c = (of_char c \<in> {9, 10, 11, 12, 13, 28, 29, 30, 31, 32, 133, 160 :: nat})"

definition strip :: "string \<Rightarrow> string" where
  "strip s = rev (dropWhile is_space (rev (dropWhile is_space s)))"

text \<open>\<^verbatim>\<open>s.split(sep)\<close> for a separator of one character; the result is never empty.\<close>

fun split :: "char \<Rightarrow> string \<Rightarrow> string list" where
  "split sep [] = [[]]"
| "split sep (c # cs) =
     (if c = sep then [] # split sep cs
      else (case split sep cs of
              [] \<Rightarrow> [[c]]
            | p # ps \<Rightarrow> (c # p) # ps))"

text \<open>\<^verbatim>\<open>sep.join(parts)\<close>, the inverse of splitting.\<close>

fun join :: "char \<Rightarrow> string list \<Rightarrow> string" where
  "join sep [] = []"
| "join sep [p] = p"
| "join sep (p # q # ps) = p @ sep # join sep (q # ps)"

text \<open>
  The warning of line 102 (line 107 of the photon script), a fixed Spanish sentence
  around the quoted token; code point 39 is the quote and 250 the accented u.
\<close>

definition warning_msg :: "string \<Rightarrow> string" where
  "warning_msg part =
     ''No se pudo interpretar '' @ [CHR 0x27] @ part @ [CHR 0x27] @
     '' como un n'' @ [CHR 0xFA] @ ''mero; se ignora.''"

text \<open>
  The parsing loop (lines 94 to 102 of the massive script, 99 to 107 of the photon
  script, identical up to the name of the list). The builtin \<^verbatim>\<open>float\<close> is the parameter
  \<open>conv\<close>: \<open>conv part = None\<close> where \<^verbatim>\<open>float(part)\<close> raises \<^verbatim>\<open>ValueError\<close>. The state of
  the loop is the list built so far and the warnings shown so far.
\<close>

fun parse_loop ::
  "(string \<Rightarrow> real option) \<Rightarrow> string list \<Rightarrow> real list \<times> string list \<Rightarrow> real list \<times> string list"
where
  "parse_loop conv [] st = st"
| "parse_loop conv (p # ps) (vals, warns) =
     (let part = strip p in
      if part = [] then parse_loop conv ps (vals, warns)
      else (case conv part of
              Some x \<Rightarrow> parse_loop conv ps (vals @ [x], warns)
            | None \<Rightarrow> parse_loop conv ps (vals, warns @ [warning_msg part])))"

definition parse_numbers :: "(string \<Rightarrow> real option) \<Rightarrow> string \<Rightarrow> real list \<times> string list" where
  "parse_numbers conv raw_text = parse_loop conv (split CHR '','' raw_text) ([], [])"

text \<open>
  What the specification says of the parser, for comparison with the loop: the tokens
  are the trimmed, non-empty pieces between commas; the values are the converted tokens
  and there is one warning for each token that does not convert, both in input order.
\<close>

definition tokens :: "string \<Rightarrow> string list" where
  "tokens raw_text = filter (\<lambda>t. t \<noteq> []) (map strip (split CHR '','' raw_text))"

definition spec_parse_numbers :: "(string \<Rightarrow> real option) \<Rightarrow> string \<Rightarrow> real list \<times> string list" where
  "spec_parse_numbers conv raw_text =
     (List.map_filter conv (tokens raw_text),
      map warning_msg (filter (\<lambda>t. conv t = None) (tokens raw_text)))"

text \<open>
  An instance of the conversion, for evaluating the parser on concrete texts: plain
  decimal numerals (an optional sign, digits, and optionally a point followed by
  digits). \<^verbatim>\<open>float\<close> accepts every such string with the value computed here; it accepts
  more (exponents, underscores, \<^verbatim>\<open>inf\<close>, \<^verbatim>\<open>nan\<close>), which is why the theorems below are
  stated for every \<open>conv\<close>.
\<close>

definition is_digit :: "char \<Rightarrow> bool" where
  "is_digit c = (48 \<le> (of_char c :: nat) \<and> (of_char c :: nat) \<le> 57)"

definition digit_val :: "char \<Rightarrow> nat" where
  "digit_val c = of_char c - 48"

definition digits_val :: "string \<Rightarrow> nat" where
  "digits_val ds = foldl (\<lambda>acc c. 10 * acc + digit_val c) 0 ds"

definition unsigned_decimal :: "string \<Rightarrow> real option" where
  "unsigned_decimal s =
     (let ip = takeWhile is_digit s; rest = dropWhile is_digit s in
      if rest = [] then (if ip = [] then None else Some (real (digits_val ip)))
      else if hd rest = CHR ''.'' \<and> list_all is_digit (tl rest) \<and> (ip \<noteq> [] \<or> tl rest \<noteq> [])
      then Some (real (digits_val ip) + real (digits_val (tl rest)) / 10 ^ length (tl rest))
      else None)"

definition decimal_float :: "string \<Rightarrow> real option" where
  "decimal_float s =
     (case s of
        [] \<Rightarrow> None
      | c # cs \<Rightarrow>
          if c = CHR ''-'' then map_option uminus (unsigned_decimal cs)
          else if c = CHR ''+'' then unsigned_decimal cs
          else unsigned_decimal s)"

subsection \<open>Potential evaluators\<close>

text \<open>
  Lines 112 to 124 of the massive script and 117 to 123 of the photon script. The
  divisors are powers of \<open>r\<close>, zero exactly when \<open>r\<close> is; then there is no finite value
  (an infinity or a NaN on a NumPy value, \<^verbatim>\<open>ZeroDivisionError\<close> on a Python float).
\<close>

definition V_eff :: "real \<Rightarrow> real \<Rightarrow> real \<Rightarrow> real option" where
  "V_eff r GM l =
     (if r = 0 then None
      else Some (- GM / r + 0.5 * (l ^ 2) / (r ^ 2) - GM * (l ^ 2) / (r ^ 3)))"

definition V_eff_newton :: "real \<Rightarrow> real \<Rightarrow> real \<Rightarrow> real option" where
  "V_eff_newton r GM l =
     (if r = 0 then None
      else Some (- GM / r + 0.5 * (l ^ 2) / (r ^ 2)))"

definition V_eff_photon :: "real \<Rightarrow> real \<Rightarrow> real option" where
  "V_eff_photon r GM =
     (if r = 0 then None
      else Some ((1 / r ^ 2) * (1 - 2 * GM / r)))"

definition V_eff_newton_photon :: "real \<Rightarrow> real option" where
  "V_eff_newton_photon r = (if r = 0 then None else Some (1 / r ^ 2))"

subsection \<open>Radial grid\<close>

definition num_points :: nat where
  "num_points = 3000"

text \<open>
  \<^verbatim>\<open>np.linspace(start, stop, num)\<close> of the NumPy library, with its default
  \<^verbatim>\<open>endpoint=True\<close>: \<open>num\<close> samples \<open>start + i * step\<close> with
  \<open>step = (stop - start) / (num - 1)\<close>, the last one then overwritten with \<open>stop\<close>.
\<close>

definition linspace :: "real \<Rightarrow> real \<Rightarrow> nat \<Rightarrow> real list" where
  "linspace start stop num =
     (if num = 0 then []
      else if num = 1 then [start]
      else map (\<lambda>i. start + real i * ((stop - start) / real (num - 1))) [0..<num - 1] @ [stop])"

text \<open>Lines 109 and 110 (114 and 115 of the photon script).\<close>

definition radial_grid :: "real \<Rightarrow> real \<Rightarrow> real \<Rightarrow> real list" where
  "radial_grid r_min r_max GM =
     (let r_over_GM = linspace r_min r_max num_points
      in map (\<lambda>x. x * GM) r_over_GM)"

subsection \<open>Critical point analyzer (massive particle)\<close>

datatype extremum_kind = KindMax | KindMin

record ExtremumPoint =
  radius :: real
  potential :: "real option"
  kind :: extremum_kind

text \<open>Division of NumPy values: no exception, and no finite number for a zero divisor.\<close>

definition np_div :: "real \<Rightarrow> real \<Rightarrow> real option" where
  "np_div a b = (if b = 0 then None else Some (a / b))"

text \<open>
  The body of the loop over \<open>l\<close>, lines 142 to 159. \<^verbatim>\<open>GM / l\<close> divides Python floats;
  \<^verbatim>\<open>sqrt_disc\<close> is a NumPy value, and so are the two radii. A chained comparison
  \<^verbatim>\<open>r_min <= x <= r_max\<close> is false for an \<open>x\<close> that is no finite number. The red marker
  is the point of kind \<open>KindMax\<close>, the green one the point of kind \<open>KindMin\<close>; the marker's
  abscissa \<^verbatim>\<open>r / GM\<close> and the formatted line of text are presentation.
\<close>

definition find_extrema :: "real \<Rightarrow> real \<Rightarrow> real \<Rightarrow> real \<Rightarrow> error + ExtremumPoint list" where
  "find_extrema GM l r_min r_max =
     (let l_critical = 2 * sqrt 3 * GM in
      if l > l_critical then
        if l = 0 then Inl ZeroDivisionError
        else
          let discriminant = 1 - 12 * (GM / l) ^ 2 in
          if discriminant > 0 then
            let sqrt_disc = sqrt discriminant;
                r_max_loc = np_div (6 * GM) (1 + sqrt_disc);
                r_min_loc = np_div (6 * GM) (1 - sqrt_disc)
            in Inr
                 ((case r_max_loc of
                     None \<Rightarrow> []
                   | Some x \<Rightarrow>
                       if r_min \<le> x \<and> x \<le> r_max
                       then [\<lparr>radius = x, potential = V_eff x GM l, kind = KindMax\<rparr>]
                       else []) @
                  (case r_min_loc of
                     None \<Rightarrow> []
                   | Some x \<Rightarrow>
                       if r_min \<le> x \<and> x \<le> r_max
                       then [\<lparr>radius = x, potential = V_eff x GM l, kind = KindMin\<rparr>]
                       else []))
          else Inr []
      else Inr [])"

subsection \<open>Classification (photon)\<close>

datatype regime = Captured | Escapes | Critical

record ImpactClassification =
  b_value :: real
  E_eff :: "real option"
  regime :: regime

text \<open>
  \<^verbatim>\<open>np.sqrt(27)\<close>, the float nearest to the square root of 27; it prints as
  \<^verbatim>\<open>5.196152422706632\<close>.
\<close>

definition np_sqrt_27 :: real where
  "np_sqrt_27 = 5850347528665472 / 2 ^ 50"

text \<open>
  The body of the loop over \<open>b\<close>, lines 156 to 171. Line 157 comes first: the square is
  a power of a Python float and the effective energy a division of Python floats, so
  it raises when the square is too large or rounds to zero. Then comes the comparison
  with the critical impact parameter; its three branches choose the line style, the
  colour and the suffix of the label (captured, escapes, critical). The products
  \<^verbatim>\<open>b * GM\<close> and \<^verbatim>\<open>np.sqrt(27) * GM\<close> are exact for \<^verbatim>\<open>GM = 1.0\<close>, the value the script
  fixes; for another \<open>GM\<close> their rounding and their range are idealised.
\<close>

definition classify_impact_parameter :: "real \<Rightarrow> real \<Rightarrow> error + ImpactClassification" where
  "classify_impact_parameter b GM =
     (case py_pow2 (b * GM) of
        Inl e \<Rightarrow> Inl e
      | Inr q \<Rightarrow>
          (case py_div 1 q of
             Inl e \<Rightarrow> Inl e
           | Inr E \<Rightarrow>
               let b_critical = np_sqrt_27 * GM
               in if b * GM < b_critical
                  then Inr \<lparr>b_value = b, E_eff = E, regime = Captured\<rparr>
                  else if b * GM > b_critical
                  then Inr \<lparr>b_value = b, E_eff = E, regime = Escapes\<rparr>
                  else Inr \<lparr>b_value = b, E_eff = E, regime = Critical\<rparr>))"

subsection \<open>Landmarks\<close>

datatype landmark = PhotonOrbit real real | Horizon real

text \<open>
  Lines 136 to 153 of the photon script: the marker of the photon orbit at abscissa
  \<^verbatim>\<open>r_photon_orbit / GM\<close> with the potential there, and the vertical line of the horizon
  at \<^verbatim>\<open>r_horizon / GM\<close>. All operands are Python floats.
\<close>

definition photon_landmarks :: "real \<Rightarrow> real \<Rightarrow> real \<Rightarrow> error + landmark list" where
  "photon_landmarks GM r_min r_max =
     (let r_photon_orbit = 3 * GM in
      case (if r_min \<le> r_photon_orbit \<and> r_photon_orbit \<le> r_max
            then (case V_eff_photon r_photon_orbit GM of
                    None \<Rightarrow> Inl ZeroDivisionError
                  | Some V_max \<Rightarrow>
                      if GM = 0 then Inl ZeroDivisionError
                      else Inr [PhotonOrbit (r_photon_orbit / GM) V_max])
            else Inr [])
      of Inl e \<Rightarrow> Inl e
       | Inr orbit \<Rightarrow>
           let r_horizon = 2 * GM in
           if r_min \<le> r_horizon \<and> r_horizon \<le> r_max
           then (if GM = 0 then Inl ZeroDivisionError
                 else Inr (orbit @ [Horizon (r_horizon / GM)]))
           else Inr orbit)"

text \<open>Lines 161 to 163 of the massive script: the horizon is drawn at abscissa 2.\<close>

definition horizon_marked :: "real \<Rightarrow> real \<Rightarrow> real \<Rightarrow> bool" where
  "horizon_marked GM r_min r_max = (let r_s = 2 * GM in r_min \<le> r_s \<and> r_s \<le> r_max)"

subsection \<open>The render cycle\<close>

text \<open>
  One run of a script, from the widget values to what the page shows. The text field is
  \<^verbatim>\<open>lambda_str\<close> in the massive script and \<^verbatim>\<open>b_str\<close> in the photon script; the two sliders
  of the y axis exist only when automatic scaling is off. \<^verbatim>\<open>st.stop()\<close> ends the run.
\<close>

record widgets =
  param_str :: string
  show_newtonian :: bool
  r_min_over_GM :: real
  r_max_over_GM :: real
  ylim :: "(real \<times> real) option"

datatype 'p outcome = Stopped string | Raised error | Plotted 'p

record 'p render =
  warnings :: "string list"
  outcome :: "'p outcome"

text \<open>Line 29 (line 44 of the photon script): \<^verbatim>\<open>GM = 1.0\<close>.\<close>

definition GM_value :: real where
  "GM_value = 1"

text \<open>
  The messages of lines 105 and 110; code point 225 is the accented a and 92 the
  backslash.
\<close>

definition empty_l_error :: string where
  "empty_l_error =
     ''Por favor ingresa al menos un valor v'' @ [CHR 0xE1] @ ''lido para $'' @
     [CHR 0x5C] @ ''ell$.''"

definition empty_b_error :: string where
  "empty_b_error = ''Por favor ingresa al menos un valor v'' @ [CHR 0xE1] @ ''lido para $b$.''"

record curve =
  curve_l :: real
  curve_newtonian :: bool
  curve_V :: "real option list"

record massive_plot =
  m_grid :: "real list"
  m_curves :: "curve list"
  m_extrema :: "ExtremumPoint list"
  m_horizon :: bool
  m_ylim :: "(real \<times> real) option"

text \<open>
  The loop of lines 132 to 159 over \<open>l_list\<close>: the relativistic curve on the grid, the
  Newtonian one if requested, then the extrema. The state is the curves and the extrema
  collected so far; an exception ends the loop. The call of line 133 evaluates
  \<^verbatim>\<open>l ** 2\<close> (line 115) on the Python float \<open>l\<close>, which raises when the square is too
  large; every other operation of the call is on the NumPy grid and raises nothing.
\<close>

fun massive_loop ::
  "real \<Rightarrow> bool \<Rightarrow> real list \<Rightarrow> real \<Rightarrow> real \<Rightarrow> real list \<Rightarrow>
   curve list \<times> ExtremumPoint list \<Rightarrow> error + curve list \<times> ExtremumPoint list"
where
  "massive_loop GM newt r r_min r_max [] st = Inr st"
| "massive_loop GM newt r r_min r_max (l # ls) (cs, es) =
     (case py_pow2 l of
        Inl e \<Rightarrow> Inl e
      | Inr _ \<Rightarrow>
          let V = map (\<lambda>x. V_eff x GM l) r;
              cs1 = cs @ [\<lparr>curve_l = l, curve_newtonian = False, curve_V = V\<rparr>];
              cs2 = (if newt
                     then cs1 @ [\<lparr>curve_l = l, curve_newtonian = True,
                                  curve_V = map (\<lambda>x. V_eff_newton x GM l) r\<rparr>]
                     else cs1)
          in case find_extrema GM l r_min r_max of
               Inl e \<Rightarrow> Inl e
             | Inr pts \<Rightarrow> massive_loop GM newt r r_min r_max ls (cs2, es @ pts))"

definition render_massive :: "(string \<Rightarrow> real option) \<Rightarrow> widgets \<Rightarrow> massive_plot render" where
  "render_massive conv w =
     (let GM = GM_value;
          r_min = r_min_over_GM w * GM;
          r_max = r_max_over_GM w * GM;
          (l_list, warns) = parse_numbers conv (param_str w)
      in if l_list = [] then \<lparr>warnings = warns, outcome = Stopped empty_l_error\<rparr>
         else
           let r_over_GM = linspace r_min r_max num_points;
               r = map (\<lambda>x. x * GM) r_over_GM
           in case massive_loop GM (show_newtonian w) r r_min r_max l_list ([], []) of
                Inl e \<Rightarrow> \<lparr>warnings = warns, outcome = Raised e\<rparr>
              | Inr (cs, es) \<Rightarrow>
                  \<lparr>warnings = warns,
                   outcome = Plotted \<lparr>m_grid = r_over_GM, m_curves = cs, m_extrema = es,
                                      m_horizon = horizon_marked GM r_min r_max,
                                      m_ylim = ylim w\<rparr>\<rparr>)"

record photon_plot =
  p_grid :: "real list"
  p_V_schw :: "real option list"
  p_V_newt :: "real option list option"
  p_landmarks :: "landmark list"
  p_levels :: "ImpactClassification list"
  p_ylim :: "(real \<times> real) option"

text \<open>The loop of lines 156 to 174 over \<open>b_list\<close>; an exception ends it.\<close>

fun photon_loop :: "real \<Rightarrow> real list \<Rightarrow> ImpactClassification list \<Rightarrow> error + ImpactClassification list"
where
  "photon_loop GM [] acc = Inr acc"
| "photon_loop GM (b # bs) acc =
     (case classify_impact_parameter b GM of
        Inl e \<Rightarrow> Inl e
      | Inr c \<Rightarrow> photon_loop GM bs (acc @ [c]))"

definition render_photon :: "(string \<Rightarrow> real option) \<Rightarrow> widgets \<Rightarrow> photon_plot render" where
  "render_photon conv w =
     (let GM = GM_value;
          r_min = r_min_over_GM w * GM;
          r_max = r_max_over_GM w * GM;
          (b_list, warns) = parse_numbers conv (param_str w)
      in if b_list = [] then \<lparr>warnings = warns, outcome = Stopped empty_b_error\<rparr>
         else
           let r_over_GM = linspace r_min r_max num_points;
               r = map (\<lambda>x. x * GM) r_over_GM;
               V_schw = map (\<lambda>x. V_eff_photon x GM) r;
               V_newt = (if show_newtonian w then Some (map V_eff_newton_photon r) else None)
           in case photon_landmarks GM r_min r_max of
                Inl e \<Rightarrow> \<lparr>warnings = warns, outcome = Raised e\<rparr>
              | Inr marks \<Rightarrow>
                  (case photon_loop GM b_list [] of
                     Inl e \<Rightarrow> \<lparr>warnings = warns, outcome = Raised e\<rparr>
                   | Inr levels \<Rightarrow>
                       \<lparr>warnings = warns,
                        outcome = Plotted \<lparr>p_grid = r_over_GM, p_V_schw = V_schw,
                                           p_V_newt = V_newt, p_landmarks = marks,
                                           p_levels = levels, p_ylim = ylim w\<rparr>\<rparr>))"

section \<open>Critical point analyzer: properties\<close>

lemma sqrt3_bounds: "2 * sqrt 3 < 4" "3 < 2 * sqrt 3"
proof -
  have "sqrt 3 < 2" by (rule real_less_lsqrt) simp_all
  then show "2 * sqrt 3 < 4" by simp
  have "3 / 2 < sqrt 3" by (rule real_less_rsqrt) (simp add: power2_eq_square)
  then show "3 < 2 * sqrt 3" by simp
qed

lemma discriminant_at_4: "1 - 12 * ((1::real) / 4)^2 = 1 / 4"
  by (simp add: power2_eq_square)

lemma sqrt_quarter: "sqrt (1 / 4) = 1 / 2"
  by (simp add: real_sqrt_divide)

text \<open>Above the critical angular momentum the discriminant lies strictly between 0 and 1.\<close>

lemma discriminant_pos:
  assumes "0 < GM" "2 * sqrt 3 * GM < l"
  shows "0 < 1 - 12 * (GM / l)^2" "1 - 12 * (GM / l)^2 < 1" "0 < l"
proof -
  have s: "0 < sqrt 3" by simp
  from assms have l: "0 < l"
    by (smt (verit) s mult_pos_pos)
  show "0 < l" by fact
  have "(2 * sqrt 3 * GM)^2 < l^2"
    using assms l by (intro power_strict_mono) auto
  then have "12 * GM^2 < l^2" by (simp add: power_mult_distrib)
  then have "12 * GM^2 / l^2 < 1" using l by simp
  then show "0 < 1 - 12 * (GM / l)^2" by (simp add: power_divide)
  show "1 - 12 * (GM / l)^2 < 1" using assms l by simp
qed

lemma find_extrema_above_critical:
  fixes GM l r_min r_max D r_max_loc r_min_loc :: real
  assumes GM: "0 < GM" and l: "2 * sqrt 3 * GM < l"
    and D_def: "D = 1 - 12 * (GM / l)^2"
    and r_max_loc_def: "r_max_loc = 6 * GM / (1 + sqrt D)"
    and r_min_loc_def: "r_min_loc = 6 * GM / (1 - sqrt D)"
  shows "0 < D" "D < 1" "0 < r_max_loc" "r_max_loc < r_min_loc"
    "find_extrema GM l r_min r_max =
      Inr ((if r_min \<le> r_max_loc \<and> r_max_loc \<le> r_max
            then [\<lparr>radius = r_max_loc, potential = V_eff r_max_loc GM l, kind = KindMax\<rparr>]
            else []) @
           (if r_min \<le> r_min_loc \<and> r_min_loc \<le> r_max
            then [\<lparr>radius = r_min_loc, potential = V_eff r_min_loc GM l, kind = KindMin\<rparr>]
            else []))"
proof -
  have D: "0 < D" "D < 1" and lpos: "0 < l"
    using discriminant_pos[OF GM l] by (simp_all add: D_def)
  show "0 < D" "D < 1" by fact+
  have sD: "0 < sqrt D" "sqrt D < 1" using D by simp_all
  have d1: "0 < 1 + sqrt D" "0 < 1 - sqrt D" using sD by linarith+
  show "0 < r_max_loc"
    unfolding r_max_loc_def using d1 GM by (intro divide_pos_pos) simp_all
  show "r_max_loc < r_min_loc"
    unfolding r_max_loc_def r_min_loc_def
    using sD d1 GM by (intro divide_strict_left_mono) (auto intro: mult_pos_pos)
  have nz: "1 + sqrt D \<noteq> 0" "1 - sqrt D \<noteq> 0" "sqrt D \<noteq> 1" using d1 by simp_all
  show "find_extrema GM l r_min r_max =
      Inr ((if r_min \<le> r_max_loc \<and> r_max_loc \<le> r_max
            then [\<lparr>radius = r_max_loc, potential = V_eff r_max_loc GM l, kind = KindMax\<rparr>]
            else []) @
           (if r_min \<le> r_min_loc \<and> r_min_loc \<le> r_max
            then [\<lparr>radius = r_min_loc, potential = V_eff r_min_loc GM l, kind = KindMin\<rparr>]
            else []))"
    using l lpos D nz
    by (simp add: find_extrema_def Let_def np_div_def D_def[symmetric]
        r_max_loc_def r_min_loc_def)
qed

lemma V_eff_closed_form:
  "r \<noteq> 0 \<Longrightarrow> V_eff r GM l = Some (- GM / r + l^2 / (2 * r^2) - GM * l^2 / r^3)"
  by (simp add: V_eff_def)

text \<open>
  Claim C1. Whenever \<open>l\<close> is at most the critical angular momentum \<open>2 * sqrt 3 * GM\<close> the
  analyzer returns the empty sequence; this includes the boundary, where the
  discriminant is exactly 0 and the strict comparison excludes it. With \<open>GM = 1\<close>,
  \<open>r_min = 0\<close> and \<open>r_max = 1000\<close>, \<open>l = 4\<close> gives exactly two points, and \<open>l = 3\<close> and
  \<open>l = 2 * sqrt 3\<close> give none.
\<close>

theorem find_extrema_empty_up_to_critical:
  "(l \<le> 2 * sqrt 3 * GM \<longrightarrow> find_extrema GM l r_min r_max = Inr []) \<and>
   (0 < GM \<longrightarrow> 1 - 12 * (GM / (2 * sqrt 3 * GM))^2 = 0) \<and>
   find_extrema 1 4 0 1000 =
     Inr [\<lparr>radius = 4, potential = Some 0, kind = KindMax\<rparr>,
          \<lparr>radius = 12, potential = Some (- 1 / 27), kind = KindMin\<rparr>] \<and>
   find_extrema 1 3 0 1000 = Inr [] \<and>
   find_extrema 1 (2 * sqrt 3) 0 1000 = Inr []"
proof -
  have a: "l \<le> 2 * sqrt 3 * GM \<longrightarrow> find_extrema GM l r_min r_max = Inr []"
    by (simp add: find_extrema_def)
  have b: "0 < GM \<longrightarrow> 1 - 12 * (GM / (2 * sqrt 3 * GM))^2 = 0"
    by (simp add: power_divide power_mult_distrib)
  have c: "find_extrema 1 4 0 1000 =
     Inr [\<lparr>radius = 4, potential = Some 0, kind = KindMax\<rparr>,
          \<lparr>radius = 12, potential = Some (- 1 / 27), kind = KindMin\<rparr>]"
    using sqrt3_bounds(1)
    by (simp add: find_extrema_def Let_def discriminant_at_4 sqrt_quarter np_div_def V_eff_def
        power2_eq_square power3_eq_cube)
  have d: "find_extrema 1 3 0 1000 = Inr []"
    using sqrt3_bounds(2) by (simp add: find_extrema_def)
  have e: "find_extrema 1 (2 * sqrt 3) 0 1000 = Inr []"
    by (simp add: find_extrema_def)
  from a b c d e show ?thesis by blast
qed

theorem find_extrema_empty_up_to_critical_witness:
  "(3::real) \<le> 2 * sqrt 3 * 1 \<and> (0::real) < 1 \<and>
   find_extrema 1 3 (5 / 2) 500 = Inr [] \<and>
   1 - 12 * ((1::real) / (2 * sqrt 3 * 1))^2 = 0"
proof -
  have h: "(3::real) \<le> 2 * sqrt 3 * 1" using sqrt3_bounds(2) by simp
  have g: "(0::real) < 1" by simp
  from find_extrema_empty_up_to_critical[of 3 1 "5 / 2" 500] h g
  show ?thesis by blast
qed

text \<open>
  Claim C2. For \<open>GM > 0\<close> and \<open>l\<close> above \<open>2 * sqrt 3 * GM\<close> the discriminant
  \<open>D = 1 - 12 (GM / l)\<^sup>2\<close> is positive and the analyzer computes exactly the two candidate
  radii \<open>6 GM / (1 + sqrt D)\<close>, labelled max, and \<open>6 GM / (1 - sqrt D)\<close>, labelled min. Each
  is emitted exactly when it lies in the closed interval from \<open>r_min\<close> to \<open>r_max\<close>, and
  its potential is the relativistic closed form evaluated at that radius.
\<close>

theorem find_extrema_two_candidates:
  "0 < GM \<Longrightarrow> 2 * sqrt 3 * GM < l \<Longrightarrow>
   (let D = 1 - 12 * (GM / l)^2;
        r_max_loc = 6 * GM / (1 + sqrt D);
        r_min_loc = 6 * GM / (1 - sqrt D)
    in 0 < D \<and>
       find_extrema GM l r_min r_max =
         Inr ((if r_min \<le> r_max_loc \<and> r_max_loc \<le> r_max
               then [\<lparr>radius = r_max_loc, potential = V_eff r_max_loc GM l, kind = KindMax\<rparr>]
               else []) @
              (if r_min \<le> r_min_loc \<and> r_min_loc \<le> r_max
               then [\<lparr>radius = r_min_loc, potential = V_eff r_min_loc GM l, kind = KindMin\<rparr>]
               else [])) \<and>
       V_eff r_max_loc GM l =
         Some (- GM / r_max_loc + l^2 / (2 * r_max_loc^2) - GM * l^2 / r_max_loc^3) \<and>
       V_eff r_min_loc GM l =
         Some (- GM / r_min_loc + l^2 / (2 * r_min_loc^2) - GM * l^2 / r_min_loc^3))"
proof -
  assume GM: "0 < GM" and l: "2 * sqrt 3 * GM < l"
  define D where "D = 1 - 12 * (GM / l)^2"
  define r_max_loc where "r_max_loc = 6 * GM / (1 + sqrt D)"
  define r_min_loc where "r_min_loc = 6 * GM / (1 - sqrt D)"
  note f = find_extrema_above_critical[OF GM l D_def r_max_loc_def r_min_loc_def]
  from f(3,4) have nz: "r_max_loc \<noteq> 0" "r_min_loc \<noteq> 0" by simp_all
  have "0 < D \<and>
       find_extrema GM l r_min r_max =
         Inr ((if r_min \<le> r_max_loc \<and> r_max_loc \<le> r_max
               then [\<lparr>radius = r_max_loc, potential = V_eff r_max_loc GM l, kind = KindMax\<rparr>]
               else []) @
              (if r_min \<le> r_min_loc \<and> r_min_loc \<le> r_max
               then [\<lparr>radius = r_min_loc, potential = V_eff r_min_loc GM l, kind = KindMin\<rparr>]
               else [])) \<and>
       V_eff r_max_loc GM l =
         Some (- GM / r_max_loc + l^2 / (2 * r_max_loc^2) - GM * l^2 / r_max_loc^3) \<and>
       V_eff r_min_loc GM l =
         Some (- GM / r_min_loc + l^2 / (2 * r_min_loc^2) - GM * l^2 / r_min_loc^3)"
    using f(1) f(5)[of r_min r_max] V_eff_closed_form[OF nz(1)] V_eff_closed_form[OF nz(2)]
    by blast
  then show ?thesis
    unfolding Let_def D_def r_max_loc_def r_min_loc_def .
qed

theorem find_extrema_two_candidates_witness:
  "(0::real) < 1 \<and> 2 * sqrt 3 * 1 < (4::real) \<and>
   find_extrema 1 4 5 20 = Inr [\<lparr>radius = 12, potential = Some (- 1 / 27), kind = KindMin\<rparr>]"
proof -
  have g: "(0::real) < 1" by simp
  have h: "2 * sqrt 3 * 1 < (4::real)" using sqrt3_bounds(1) by simp
  from find_extrema_two_candidates[OF g h, of 5 20] h
  show ?thesis
    by (simp add: Let_def discriminant_at_4 sqrt_quarter power2_eq_square power3_eq_cube)
qed

section \<open>Classification of impact parameters: properties\<close>

lemma thresholds:
  "float_zero_threshold < 1" "(2::real) ^ 200 < float_inf_threshold" "0 < float_zero_threshold"
  "float_zero_threshold < 1 / float_inf_threshold"
  by (simp_all add: float_zero_threshold_def float_inf_threshold_def)

lemma np_sqrt_27_nearest: "np_sqrt_27 - 1 / 2 ^ 51 < sqrt 27" "sqrt 27 < np_sqrt_27"
proof -
  have "0 \<le> np_sqrt_27" by (simp add: np_sqrt_27_def)
  moreover have "27 < np_sqrt_27 ^ 2" by (simp add: np_sqrt_27_def power2_eq_square)
  ultimately show "sqrt 27 < np_sqrt_27" by (intro real_less_lsqrt) simp_all
  have "(np_sqrt_27 - 1 / 2 ^ 51) ^ 2 < 27" by (simp add: np_sqrt_27_def power2_eq_square)
  then show "np_sqrt_27 - 1 / 2 ^ 51 < sqrt 27" by (rule real_less_rsqrt)
qed

lemma np_sqrt_27_bounds: "4 < np_sqrt_27" "np_sqrt_27 < 6"
  by (simp_all add: np_sqrt_27_def)

lemma py_pow2_in_range:
  "float_zero_threshold < x ^ 2 \<Longrightarrow> x ^ 2 < float_inf_threshold \<Longrightarrow> py_pow2 x = Inr (x ^ 2)"
  by (simp add: py_pow2_def)

lemma classify_in_range:
  assumes lo: "float_zero_threshold < b ^ 2" and hi: "b ^ 2 < float_inf_threshold"
  shows "\<exists>c. classify_impact_parameter b 1 = Inr c \<and> b_value c = b \<and>
           E_eff c = (if float_inf_threshold \<le> 1 / b ^ 2 then None else Some (1 / b ^ 2)) \<and>
           (regime c = Captured \<longleftrightarrow> b * 1 < np_sqrt_27 * 1) \<and>
           (regime c = Escapes \<longleftrightarrow> b * 1 > np_sqrt_27 * 1) \<and>
           (regime c = Critical \<longleftrightarrow> b * 1 = np_sqrt_27 * 1)"
proof -
  have p: "py_pow2 b = Inr (b ^ 2)" using py_pow2_in_range[OF lo hi] by simp
  have nz: "b ^ 2 \<noteq> 0" using lo thresholds(3) by linarith
  have pos: "0 < b ^ 2" using lo thresholds(3) by linarith
  have "1 / float_inf_threshold < 1 / b ^ 2"
    using hi pos by (intro divide_strict_left_mono) (auto intro: mult_pos_pos simp: float_inf_threshold_def)
  with thresholds(4) have nu: "\<not> \<bar>1 / b ^ 2\<bar> \<le> float_zero_threshold" by simp
  have abs: "\<bar>1 / b ^ 2\<bar> = 1 / b ^ 2" by simp
  have d: "py_div 1 (b ^ 2) = Inr (if float_inf_threshold \<le> 1 / b ^ 2 then None else Some (1 / b ^ 2))"
    unfolding py_div_def using nz nu by (simp only: abs if_False) simp
  show ?thesis
    by (auto simp: classify_impact_parameter_def p d Let_def)
qed

lemma classify_underflow:
  "(b * GM) ^ 2 \<le> float_zero_threshold \<Longrightarrow> classify_impact_parameter b GM = Inl ZeroDivisionError"
  using thresholds
  by (simp add: classify_impact_parameter_def py_pow2_def py_div_def float_inf_threshold_def float_zero_threshold_def)

lemma classify_overflow:
  "float_inf_threshold \<le> (b * GM) ^ 2 \<Longrightarrow> classify_impact_parameter b GM = Inl OverflowError"
  by (simp add: classify_impact_parameter_def py_pow2_def)

lemma classify_zero: "classify_impact_parameter 0 GM = Inl ZeroDivisionError"
  using classify_underflow[of 0 GM] thresholds(3) by simp

lemma in_range_small: "1 \<le> x \<Longrightarrow> x \<le> 2 ^ 100 \<Longrightarrow> float_zero_threshold < x ^ 2 \<and> x ^ 2 < float_inf_threshold \<and> \<not> float_inf_threshold \<le> 1 / x ^ 2"
proof -
  assume a: "1 \<le> x" "x \<le> 2 ^ 100"
  then have "1 \<le> x ^ 2" by simp
  moreover have "x ^ 2 \<le> (2 ^ 100) ^ 2" using a by (intro power_mono) simp_all
  moreover have "((2::real) ^ 100) ^ 2 = 2 ^ 200" by simp
  moreover have "1 / x ^ 2 \<le> 1"
  proof -
    have "0 < x ^ 2" using \<open>1 \<le> x ^ 2\<close> by linarith
    then show ?thesis using \<open>1 \<le> x ^ 2\<close> by (simp only: divide_le_eq_1_pos)
  qed
  moreover have "(1::real) < 2 ^ 200" by simp
  ultimately show ?thesis using thresholds(1,2) by linarith
qed

lemma np_sqrt_27_text: "\<bar>np_sqrt_27 - 5196152422706632 / 10 ^ 15\<bar> < 1 / 2 ^ 51"
  by (simp add: np_sqrt_27_def)

lemma classify_example:
  assumes "1 \<le> b" "b \<le> 2 ^ 100"
  shows "classify_impact_parameter b 1 =
     Inr \<lparr>b_value = b, E_eff = Some (1 / b ^ 2),
          regime = (if b < np_sqrt_27 then Captured
                    else if np_sqrt_27 < b then Escapes else Critical)\<rparr>"
proof -
  note r = in_range_small[OF assms]
  from classify_in_range[of b] r
  obtain c where c: "classify_impact_parameter b 1 = Inr c" "b_value c = b"
    "E_eff c = Some (1 / b ^ 2)"
    "regime c = Captured \<longleftrightarrow> b < np_sqrt_27" "regime c = Escapes \<longleftrightarrow> np_sqrt_27 < b"
    "regime c = Critical \<longleftrightarrow> b = np_sqrt_27"
    by auto
  then have "regime c = (if b < np_sqrt_27 then Captured
                    else if np_sqrt_27 < b then Escapes else Critical)"
    by (cases "regime c") auto
  with c show ?thesis by (cases c) simp
qed

text \<open>
  Claim C3, as the code has it. With \<open>GM = 1\<close>, the value the script fixes, line 157
  squares \<open>b\<close> and divides by the square before the comparison, so a regime is assigned
  exactly when the square of \<open>b\<close> is a float that is neither zero nor an infinity: between
  \<^verbatim>\<open>2^-1075\<close> and \<^verbatim>\<open>2^1024 - 2^970\<close>. Then exactly one regime is assigned: captured when
  \<open>b GM\<close> is below the critical impact parameter, escapes when it is above, critical only
  when the two floats are equal. The critical impact parameter is \<^verbatim>\<open>np.sqrt(27) * GM\<close>, the
  float nearest to the square root of 27, which is also the float of the text
  \<^verbatim>\<open>5.196152422706632\<close>. So \<open>b = np.sqrt(27)\<close> is critical, \<open>b = 6\<close> escapes and \<open>b = 4\<close> is
  captured. Outside the range line 157 raises: \<^verbatim>\<open>ZeroDivisionError\<close> when the square
  rounds to zero, \<^verbatim>\<open>OverflowError\<close> when it is too large.
\<close>

theorem classify_impact_parameter_partition:
  "(1 / 2 ^ 1075 < b ^ 2 \<and> b ^ 2 < 2 ^ 1024 - 2 ^ 970 \<longrightarrow>
      (\<exists>c. classify_impact_parameter b 1 = Inr c \<and> b_value c = b \<and>
           E_eff c = (if 2 ^ 1024 - 2 ^ 970 \<le> 1 / b ^ 2 then None else Some (1 / b ^ 2)) \<and>
           (regime c = Captured \<longleftrightarrow> b * 1 < np_sqrt_27 * 1) \<and>
           (regime c = Escapes \<longleftrightarrow> b * 1 > np_sqrt_27 * 1) \<and>
           (regime c = Critical \<longleftrightarrow> b * 1 = np_sqrt_27 * 1))) \<and>
   (b ^ 2 \<le> 1 / 2 ^ 1075 \<longrightarrow> classify_impact_parameter b 1 = Inl ZeroDivisionError) \<and>
   (2 ^ 1024 - 2 ^ 970 \<le> b ^ 2 \<longrightarrow> classify_impact_parameter b 1 = Inl OverflowError) \<and>
   np_sqrt_27 - 1 / 2 ^ 51 < sqrt 27 \<and> sqrt 27 < np_sqrt_27 \<and>
   \<bar>np_sqrt_27 - 5196152422706632 / 10 ^ 15\<bar> < 1 / 2 ^ 51 \<and>
   classify_impact_parameter np_sqrt_27 1 =
     Inr \<lparr>b_value = np_sqrt_27, E_eff = Some (1 / np_sqrt_27 ^ 2), regime = Critical\<rparr> \<and>
   classify_impact_parameter 6 1 =
     Inr \<lparr>b_value = 6, E_eff = Some (1 / 36), regime = Escapes\<rparr> \<and>
   classify_impact_parameter 4 1 =
     Inr \<lparr>b_value = 4, E_eff = Some (1 / 16), regime = Captured\<rparr>"
proof -
  have a: "1 / 2 ^ 1075 < b ^ 2 \<and> b ^ 2 < 2 ^ 1024 - 2 ^ 970 \<longrightarrow>
      (\<exists>c. classify_impact_parameter b 1 = Inr c \<and> b_value c = b \<and>
           E_eff c = (if 2 ^ 1024 - 2 ^ 970 \<le> 1 / b ^ 2 then None else Some (1 / b ^ 2)) \<and>
           (regime c = Captured \<longleftrightarrow> b * 1 < np_sqrt_27 * 1) \<and>
           (regime c = Escapes \<longleftrightarrow> b * 1 > np_sqrt_27 * 1) \<and>
           (regime c = Critical \<longleftrightarrow> b * 1 = np_sqrt_27 * 1))"
    using classify_in_range[of b]
    unfolding float_zero_threshold_def float_inf_threshold_def by blast
  have u: "b ^ 2 \<le> 1 / 2 ^ 1075 \<longrightarrow> classify_impact_parameter b 1 = Inl ZeroDivisionError"
    using classify_underflow[of b 1] by (simp add: float_zero_threshold_def)
  have o: "2 ^ 1024 - 2 ^ 970 \<le> b ^ 2 \<longrightarrow> classify_impact_parameter b 1 = Inl OverflowError"
    using classify_overflow[of b 1] by (simp add: float_inf_threshold_def)
  have c: "classify_impact_parameter np_sqrt_27 1 =
     Inr \<lparr>b_value = np_sqrt_27, E_eff = Some (1 / np_sqrt_27 ^ 2), regime = Critical\<rparr>"
    using classify_example[of np_sqrt_27] np_sqrt_27_bounds by simp
  have e: "classify_impact_parameter 6 1 =
     Inr \<lparr>b_value = 6, E_eff = Some (1 / 36), regime = Escapes\<rparr>"
    using classify_example[of 6] np_sqrt_27_bounds by simp
  have d: "classify_impact_parameter 4 1 =
     Inr \<lparr>b_value = 4, E_eff = Some (1 / 16), regime = Captured\<rparr>"
    using classify_example[of 4] np_sqrt_27_bounds by simp
  from a u o np_sqrt_27_nearest np_sqrt_27_text c e d show ?thesis by blast
qed

theorem classify_impact_parameter_partition_witness:
  "(1::real) / 2 ^ 1075 < 3 ^ 2 \<and> (3::real) ^ 2 < 2 ^ 1024 - 2 ^ 970 \<and>
   (\<exists>c. classify_impact_parameter 3 1 = Inr c \<and> b_value c = 3 \<and> E_eff c = Some (1 / 9) \<and>
        regime c = Captured) \<and>
   ((1::real) / 10 ^ 200) ^ 2 \<le> 1 / 2 ^ 1075 \<and>
   classify_impact_parameter (1 / 10 ^ 200) 1 = Inl ZeroDivisionError \<and>
   (2::real) ^ 1024 - 2 ^ 970 \<le> (10 ^ 200) ^ 2 \<and>
   classify_impact_parameter (10 ^ 200) 1 = Inl OverflowError"
proof -
  have h: "(1::real) / 2 ^ 1075 < 3 ^ 2 \<and> (3::real) ^ 2 < 2 ^ 1024 - 2 ^ 970" by simp
  have lt: "(3::real) * 1 < np_sqrt_27 * 1" using np_sqrt_27_bounds(1) by simp
  have ne: "\<not> (2::real) ^ 1024 - 2 ^ 970 \<le> 1 / 3 ^ 2" by simp
  from classify_impact_parameter_partition[of 3] h
  obtain c where c: "classify_impact_parameter 3 1 = Inr c" "b_value c = 3"
    "E_eff c = (if (2::real) ^ 1024 - 2 ^ 970 \<le> 1 / 3 ^ 2 then None else Some (1 / 3 ^ 2))"
    "regime c = Captured \<longleftrightarrow> (3::real) * 1 < np_sqrt_27 * 1"
    by blast
  from c(3) ne have "E_eff c = Some (1 / 9)" by simp
  with c lt have 1: "\<exists>c. classify_impact_parameter 3 1 = Inr c \<and> b_value c = 3 \<and>
      E_eff c = Some (1 / 9) \<and> regime c = Captured" by blast
  have hu: "((1::real) / 10 ^ 200) ^ 2 \<le> 1 / 2 ^ 1075" by (simp add: power_divide)
  have ho: "(2::real) ^ 1024 - 2 ^ 970 \<le> (10 ^ 200) ^ 2" by simp
  from classify_impact_parameter_partition[of "1 / 10 ^ 200"] hu
  have 2: "classify_impact_parameter (1 / 10 ^ 200) 1 = Inl ZeroDivisionError" by blast
  from classify_impact_parameter_partition[of "10 ^ 200"] ho
  have 3: "classify_impact_parameter (10 ^ 200) 1 = Inl OverflowError" by blast
  from h 1 hu 2 ho 3 show ?thesis by blast
qed

text \<open>
  Claim C3 as first stated, for every finite \<open>b\<close>, fails at \<open>b = 0\<close> and \<open>GM = 1\<close>:
  line 157 raises before any regime is chosen.
\<close>

theorem classify_impact_parameter_zero_counterexample:
  "classify_impact_parameter 0 1 = Inl ZeroDivisionError"
  by (simp add: classify_impact_parameter_def py_pow2_def py_div_def
      float_inf_threshold_def float_zero_threshold_def)

section \<open>Potential evaluators: properties\<close>

text \<open>
  Claim C6. For every \<open>r > 0\<close> the massive-particle evaluator computes
  \<open>- GM / r + l\<^sup>2 / (2 r\<^sup>2) - GM l\<^sup>2 / r\<^sup>3\<close> and its Newtonian counterpart
  \<open>- GM / r + l\<^sup>2 / (2 r\<^sup>2)\<close>; at \<open>r = 3\<close>, \<open>GM = 1\<close>, \<open>l = 4\<close> the value is
  \<open>- 1/3 + 16/18 - 16/27\<close>.
\<close>

theorem V_eff_formula:
  "(0 < r \<longrightarrow>
      V_eff r GM l = Some (- GM / r + l^2 / (2 * r^2) - GM * l^2 / r^3) \<and>
      V_eff_newton r GM l = Some (- GM / r + l^2 / (2 * r^2))) \<and>
   V_eff 3 1 4 = Some (- 1 / 3 + 16 / 18 - 16 / 27)"
  by (simp add: V_eff_def V_eff_newton_def power2_eq_square power3_eq_cube)

theorem V_eff_formula_witness:
  "(0::real) < 2 \<and> V_eff 2 1 4 = Some (- 1 / 2) \<and> V_eff_newton 2 1 4 = Some (3 / 2)"
proof -
  have h: "(0::real) < 2" by simp
  from V_eff_formula[of 2 1 4] h
  have "V_eff 2 1 4 = Some (- 1 / 2 + 4^2 / (2 * 2^2) - 1 * 4^2 / 2^3) \<and>
        V_eff_newton 2 1 4 = Some (- 1 / 2 + 4^2 / (2 * 2^2))"
    by blast
  then show ?thesis by simp
qed

text \<open>
  Claim C7. For \<open>r > 2 GM\<close>, \<open>GM > 0\<close> and \<open>l > 0\<close> both potentials are defined and the
  Newtonian one strictly exceeds the relativistic one: their difference is
  \<open>GM l\<^sup>2 / r\<^sup>3\<close>, which is positive.
\<close>

theorem newtonian_exceeds_relativistic:
  assumes "2 * GM < r" "0 < GM" "0 < l"
  shows "\<exists>v vn. V_eff r GM l = Some v \<and> V_eff_newton r GM l = Some vn \<and>
           vn - v = GM * l^2 / r^3 \<and> 0 < GM * l^2 / r^3 \<and> v < vn"
proof -
  from assms have r: "0 < r" by linarith
  have "0 < GM * l^2 / r^3" using assms r by simp
  with r show ?thesis by (simp add: V_eff_def V_eff_newton_def)
qed

theorem newtonian_exceeds_relativistic_witness:
  "2 * 1 < (3::real) \<and> (0::real) < 1 \<and> (0::real) < 4 \<and>
   (\<exists>v vn. V_eff 3 1 4 = Some v \<and> V_eff_newton 3 1 4 = Some vn \<and> vn - v = 16 / 27 \<and> v < vn)"
proof -
  have h: "2 * 1 < (3::real)" "(0::real) < 1" "(0::real) < 4" by simp_all
  from newtonian_exceeds_relativistic[OF h]
  obtain v vn where "V_eff 3 1 4 = Some v" "V_eff_newton 3 1 4 = Some vn"
    "vn - v = 1 * 4^2 / 3^3" "v < vn" by blast
  moreover have "(1::real) * 4^2 / 3^3 = 16 / 27" by simp
  ultimately show ?thesis using h by auto
qed

lemma photon_potential_bound:
  fixes GM r :: real
  assumes "0 < GM" "0 < r"
  shows "(1 / r^2) * (1 - 2 * GM / r) \<le> 1 / (27 * GM^2)"
proof -
  have "0 \<le> (r - 3 * GM)^2 * (r + 6 * GM)" using assms by simp
  also have "(r - 3 * GM)^2 * (r + 6 * GM) = r^3 - 27 * GM^2 * (r - 2 * GM)"
    by (simp add: power2_eq_square power3_eq_cube algebra_simps)
  finally have "27 * GM^2 * (r - 2 * GM) \<le> r^3" by simp
  then have "(r - 2 * GM) / r^3 \<le> 1 / (27 * GM^2)"
    using assms by (simp add: field_simps)
  moreover have "(1 / r^2) * (1 - 2 * GM / r) = (r - 2 * GM) / r^3"
    using assms by (simp add: field_simps power2_eq_square power3_eq_cube)
  ultimately show ?thesis by simp
qed

lemma photon_potential_at_orbit:
  "0 < GM \<Longrightarrow> V_eff_photon (3 * GM) GM = Some (1 / (27 * GM^2))"
  by (simp add: V_eff_photon_def power2_eq_square field_simps)

lemma photon_landmarks_window:
  "0 < GM \<Longrightarrow> photon_landmarks GM r_min r_max =
     Inr ((if r_min \<le> 3 * GM \<and> 3 * GM \<le> r_max
           then [PhotonOrbit 3 (1 / (27 * GM^2))] else []) @
          (if r_min \<le> 2 * GM \<and> 2 * GM \<le> r_max then [Horizon 2] else []))"
  by (simp add: photon_landmarks_def Let_def photon_potential_at_orbit)

text \<open>
  Claim C8. For every \<open>r > 0\<close> the photon evaluator computes \<open>(1 / r\<^sup>2) (1 - 2 GM / r)\<close>.
  For \<open>GM > 0\<close> its value at the photon sphere \<open>r = 3 GM\<close> is \<open>1 / (27 GM\<^sup>2)\<close>, which no
  value at a positive radius exceeds. The marker of the photon orbit is drawn exactly
  when \<open>3 GM\<close> lies in the closed interval from \<open>r_min\<close> to \<open>r_max\<close>, and the horizon
  exactly when \<open>2 GM\<close> does, in both scripts.
\<close>

theorem photon_potential_and_landmarks:
  "(0 < r \<longrightarrow> V_eff_photon r GM = Some ((1 / r^2) * (1 - 2 * GM / r))) \<and>
   (0 < GM \<longrightarrow>
      V_eff_photon (3 * GM) GM = Some (1 / (27 * GM^2)) \<and>
      (0 < r \<longrightarrow> (1 / r^2) * (1 - 2 * GM / r) \<le> 1 / (27 * GM^2)) \<and>
      photon_landmarks GM r_min r_max =
        Inr ((if r_min \<le> 3 * GM \<and> 3 * GM \<le> r_max
              then [PhotonOrbit 3 (1 / (27 * GM^2))] else []) @
             (if r_min \<le> 2 * GM \<and> 2 * GM \<le> r_max then [Horizon 2] else []))) \<and>
   horizon_marked GM r_min r_max = (r_min \<le> 2 * GM \<and> 2 * GM \<le> r_max)"
proof -
  have a: "0 < r \<longrightarrow> V_eff_photon r GM = Some ((1 / r^2) * (1 - 2 * GM / r))"
    by (simp add: V_eff_photon_def)
  have b: "horizon_marked GM r_min r_max = (r_min \<le> 2 * GM \<and> 2 * GM \<le> r_max)"
    by (simp add: horizon_marked_def Let_def)
  from a b photon_potential_at_orbit[of GM] photon_potential_bound[of GM r]
    photon_landmarks_window[of GM r_min r_max]
  show ?thesis by blast
qed

theorem photon_potential_and_landmarks_witness:
  "(0::real) < 4 \<and> (0::real) < 1 \<and>
   V_eff_photon 4 1 = Some (1 / 32) \<and> V_eff_photon 3 1 = Some (1 / 27) \<and>
   (1::real) / 32 \<le> 1 / 27 \<and>
   photon_landmarks 1 (5 / 2) 15 = Inr [PhotonOrbit 3 (1 / 27)]"
proof -
  have h: "(0::real) < 4" "(0::real) < 1" by simp_all
  from photon_potential_and_landmarks[of 4 1 "5 / 2" 15] h
  have "V_eff_photon 4 1 = Some ((1 / 4^2) * (1 - 2 * 1 / 4))"
    "V_eff_photon (3 * 1) 1 = Some (1 / (27 * 1^2))"
    "((1::real) / 4^2) * (1 - 2 * 1 / 4) \<le> 1 / (27 * 1^2)"
    "photon_landmarks 1 (5 / 2) 15 =
        Inr ((if (5 / 2 :: real) \<le> 3 * 1 \<and> (3::real) * 1 \<le> 15
              then [PhotonOrbit 3 (1 / (27 * 1^2))] else []) @
             (if (5 / 2 :: real) \<le> 2 * 1 \<and> (2::real) * 1 \<le> 15 then [Horizon 2] else []))"
    by blast+
  then show ?thesis by simp
qed

section \<open>Radial grid: properties\<close>

lemma linspace_length: "length (linspace a b n) = n"
  by (simp add: linspace_def)

lemma linspace_nth:
  assumes "2 \<le> n" "i < n"
  shows "linspace a b n ! i = a + real i * ((b - a) / real (n - 1))"
proof (cases "i < n - 1")
  case True
  with assms show ?thesis by (simp add: linspace_def nth_append)
next
  case False
  with assms have i: "i = n - 1" by simp
  have "real (n - 1) \<noteq> 0" using assms by simp
  then have "a + real (n - 1) * ((b - a) / real (n - 1)) = b" by simp
  with assms i show ?thesis by (simp add: linspace_def nth_append)
qed

lemma linspace_hd: "2 \<le> n \<Longrightarrow> hd (linspace a b n) = a"
  using linspace_nth[of n 0 a b] linspace_length[of a b n]
  by (cases "linspace a b n") (auto simp: hd_conv_nth)

lemma linspace_last: "2 \<le> n \<Longrightarrow> last (linspace a b n) = b"
  by (simp add: linspace_def)

lemma linspace_sorted:
  assumes "2 \<le> n" "a < b"
  shows "sorted_wrt (<) (linspace a b n)"
proof -
  have step: "0 < (b - a) / real (n - 1)" using assms by simp
  show ?thesis
  proof (subst sorted_wrt_iff_nth_less, intro allI impI)
    fix i j assume ij: "i < j" "j < length (linspace a b n)"
    then have j: "j < n" and i: "i < n" by (simp_all add: linspace_length)
    from ij have "real i < real j" by simp
    then have "real i * ((b - a) / real (n - 1)) < real j * ((b - a) / real (n - 1))"
      using step by (rule mult_strict_right_mono)
    then show "linspace a b n ! i < linspace a b n ! j"
      using linspace_nth[OF assms(1) i] linspace_nth[OF assms(1) j] by simp
  qed
qed

lemma linspace_bounds:
  assumes "2 \<le> n" "a < b" "x \<in> set (linspace a b n)"
  shows "a \<le> x \<and> x \<le> b"
proof -
  from assms(3) obtain i where i: "i < n" "x = linspace a b n ! i"
    by (auto simp: in_set_conv_nth linspace_length)
  have n1: "0 < real (n - 1)" using assms by simp
  have "real i \<le> real (n - 1)" using i by simp
  then have "real i / real (n - 1) \<le> 1" using n1 by simp
  then have "real i / real (n - 1) * (b - a) \<le> 1 * (b - a)"
    using assms(2) by (intro mult_right_mono) simp_all
  moreover have "0 \<le> real i / real (n - 1) * (b - a)" using assms(2) n1 by simp
  moreover have "x = a + real i / real (n - 1) * (b - a)"
    using linspace_nth[OF assms(1) i(1)] i(2) by simp
  ultimately show ?thesis by simp
qed

lemma grid_is_linspace: "radial_grid r_min r_max GM_value = linspace r_min r_max num_points"
  by (simp add: radial_grid_def GM_value_def)

text \<open>
  Claim C9. For \<open>0 < r_min < r_max\<close> the radial grid of a render cycle has exactly 3000
  radii, the first is \<open>r_min\<close> and the last is \<open>r_max\<close>, consecutive radii differ by the
  same step \<open>(r_max - r_min) / 2999\<close>, the sequence is strictly increasing and every radius
  is positive, so that all four evaluators have a finite value at every grid point.
\<close>

theorem radial_grid_shape:
  "0 < r_min \<Longrightarrow> r_min < r_max \<Longrightarrow>
   (let g = radial_grid r_min r_max GM_value in
      length g = 3000 \<and> hd g = r_min \<and> last g = r_max \<and>
      (\<forall>i<3000. g ! i = r_min + real i * ((r_max - r_min) / 2999)) \<and>
      (\<forall>i<2999. g ! (i + 1) - g ! i = (r_max - r_min) / 2999) \<and>
      sorted_wrt (<) g \<and>
      (\<forall>r\<in>set g. 0 < r \<and> V_eff r GM l \<noteq> None \<and> V_eff_newton r GM l \<noteq> None \<and>
         V_eff_photon r GM \<noteq> None \<and> V_eff_newton_photon r \<noteq> None))"
proof -
  assume pos: "0 < r_min" and lt: "r_min < r_max"
  define g where "g = radial_grid r_min r_max GM_value"
  have n: "2 \<le> num_points" "num_points = 3000" by (simp_all add: num_points_def)
  have g: "g = linspace r_min r_max num_points" by (simp add: g_def grid_is_linspace)
  have 1: "length g = 3000" by (simp add: g linspace_length n(2))
  have 2: "hd g = r_min" "last g = r_max" by (simp_all add: g linspace_hd linspace_last n(1))
  have 3: "\<forall>i<3000. g ! i = r_min + real i * ((r_max - r_min) / 2999)"
    using linspace_nth[OF n(1), of _ r_min r_max] by (simp add: g n(2))
  have 4: "\<forall>i<2999. g ! (i + 1) - g ! i = (r_max - r_min) / 2999"
  proof (intro allI impI)
    fix i :: nat assume i: "i < 2999"
    define step where "step = (r_max - r_min) / 2999"
    from i have "i + 1 < 3000" "i < 3000" by simp_all
    with 3 have "g ! (i + 1) = r_min + real (i + 1) * step" "g ! i = r_min + real i * step"
      unfolding step_def by blast+
    then have "g ! (i + 1) - g ! i = real (i + 1) * step - real i * step" by simp
    also have "\<dots> = step" by (simp add: algebra_simps)
    finally show "g ! (i + 1) - g ! i = (r_max - r_min) / 2999" by (simp add: step_def)
  qed
  have 5: "sorted_wrt (<) g" unfolding g by (rule linspace_sorted[OF n(1) lt])
  have 6: "0 < r" if "r \<in> set g" for r
    using linspace_bounds[OF n(1) lt, of r] that pos by (simp add: g)
  have 7: "\<forall>r\<in>set g. 0 < r \<and> V_eff r GM l \<noteq> None \<and> V_eff_newton r GM l \<noteq> None \<and>
            V_eff_photon r GM \<noteq> None \<and> V_eff_newton_photon r \<noteq> None"
    using 6 by (auto simp: V_eff_def V_eff_newton_def V_eff_photon_def V_eff_newton_photon_def)
  from 1 2 3 4 5 7 show ?thesis
    unfolding Let_def g_def by blast
qed

theorem radial_grid_shape_witness:
  "(0::real) < 5 / 2 \<and> (5 / 2 :: real) < 500 \<and>
   length (radial_grid (5 / 2) 500 GM_value) = 3000 \<and>
   hd (radial_grid (5 / 2) 500 GM_value) = 5 / 2 \<and>
   last (radial_grid (5 / 2) 500 GM_value) = 500 \<and>
   radial_grid (5 / 2) 500 GM_value ! 1 = 5 / 2 + (500 - 5 / 2) / 2999 \<and>
   radial_grid (5 / 2) 500 GM_value ! 1 - radial_grid (5 / 2) 500 GM_value ! 0 =
     (500 - 5 / 2) / 2999 \<and>
   0 < radial_grid (5 / 2) 500 GM_value ! 1 \<and>
   V_eff (radial_grid (5 / 2) 500 GM_value ! 1) 1 4 \<noteq> None"
proof -
  define g where "g = radial_grid (5 / 2) 500 GM_value"
  have h: "(0::real) < 5 / 2" "(5 / 2 :: real) < 500" by simp_all
  note t = radial_grid_shape[OF h, of 1 4, unfolded Let_def, folded g_def]
  from t have len: "length g = 3000" and ends: "hd g = 5 / 2" "last g = 500"
    by blast+
  from t have nth: "\<forall>i<3000. g ! i = 5 / 2 + real i * ((500 - 5 / 2) / 2999)"
    and step: "\<forall>i<2999. g ! (i + 1) - g ! i = (500 - 5 / 2) / 2999"
    and mem: "\<forall>r\<in>set g. 0 < r \<and> V_eff r 1 4 \<noteq> None"
    by blast+
  from nth have n1: "g ! 1 = 5 / 2 + (500 - 5 / 2) / 2999" by simp
  from step have s0: "g ! 1 - g ! 0 = (500 - 5 / 2) / 2999" by force
  have "g ! 1 \<in> set g" using len by (intro nth_mem) simp
  with mem have m1: "0 < g ! 1 \<and> V_eff (g ! 1) 1 4 \<noteq> None" by blast
  from h len ends n1 s0 m1 show ?thesis unfolding g_def by blast
qed

section \<open>Input parser: properties\<close>

lemma split_nonempty: "split sep s \<noteq> []"
  by (induction s) (auto split: list.splits)

lemma split_no_sep: "p \<in> set (split sep s) \<Longrightarrow> sep \<notin> set p"
  by (induction s arbitrary: p) (auto split: if_splits list.splits)

lemma strip_ends:
  "strip s \<noteq> [] \<Longrightarrow> \<not> is_space (hd (strip s)) \<and> \<not> is_space (last (strip s))"
proof -
  assume ne: "strip s \<noteq> []"
  define u where "u = dropWhile is_space (rev (dropWhile is_space s))"
  have s: "strip s = rev u" by (simp add: strip_def u_def)
  with ne have une: "u \<noteq> []" by simp
  then have h: "\<not> is_space (hd u)" unfolding u_def by (metis hd_dropWhile)
  have l: "last u = hd (dropWhile is_space s)"
  proof -
    obtain v where v: "rev (dropWhile is_space s) = v @ u"
      unfolding u_def by (metis takeWhile_dropWhile_id)
    then have "dropWhile is_space s = rev u @ rev v" by (metis rev_append rev_rev_ident)
    with une show ?thesis by (simp add: hd_append hd_rev)
  qed
  have dne: "dropWhile is_space s \<noteq> []"
  proof
    assume "dropWhile is_space s = []"
    then have "u = dropWhile is_space (rev [])" by (simp only: u_def)
    with une show False by simp
  qed
  then have "\<not> is_space (hd (dropWhile is_space s))" by (metis hd_dropWhile)
  with l h s une show ?thesis by (simp add: hd_rev last_rev)
qed

lemma parse_loop_spec:
  "parse_loop conv ps (vals, warns) =
     (vals @ List.map_filter conv (filter (\<lambda>t. t \<noteq> []) (map strip ps)),
      warns @ map warning_msg (filter (\<lambda>t. conv t = None) (filter (\<lambda>t. t \<noteq> []) (map strip ps))))"
  by (induction ps arbitrary: vals warns)
     (auto simp: List.map_filter_simps Let_def split: option.splits)

lemma parse_numbers_refines: "parse_numbers conv s = spec_parse_numbers conv s"
  by (simp add: parse_numbers_def spec_parse_numbers_def tokens_def parse_loop_spec)

lemma tokens_example: "tokens ''4, abc, 7'' = [''4'', ''abc'', ''7'']"
  by (simp add: tokens_def strip_def is_space_def)

lemma join_Cons: "join sep ((c # p) # ps) = c # join sep (p # ps)"
  by (cases ps) simp_all

lemma join_split: "join sep (split sep s) = s"
  by (induction s) (auto split: list.splits simp: split_nonempty join_Cons)

lemma tokens_nonempty: "t \<in> set (tokens s) \<Longrightarrow> t \<noteq> []"
  by (simp add: tokens_def)

lemma warning_msg_names_token:
  "\<exists>pre post. warning_msg t = pre @ [CHR 0x27] @ t @ [CHR 0x27] @ post"
  unfolding warning_msg_def by blast

lemma map_filter_length:
  "length (List.map_filter f ts) + length (filter (\<lambda>t. f t = None) ts) = length ts"
  by (induction ts) (auto simp: List.map_filter_simps split: option.splits)

lemma decimal_float_4: "decimal_float ''4'' = Some 4"
  by (simp add: decimal_float_def unsigned_decimal_def is_digit_def digits_val_def digit_val_def)

lemma decimal_float_7: "decimal_float ''7'' = Some 7"
  by (simp add: decimal_float_def unsigned_decimal_def is_digit_def digits_val_def digit_val_def)

lemma decimal_float_abc: "decimal_float ''abc'' = None"
  by (simp add: decimal_float_def unsigned_decimal_def is_digit_def digits_val_def digit_val_def)

lemma decimal_float_0: "decimal_float ''0'' = Some 0"
  by (simp add: decimal_float_def unsigned_decimal_def is_digit_def digits_val_def digit_val_def)

lemma decimal_float_6: "decimal_float ''6'' = Some 6"
  by (simp add: decimal_float_def unsigned_decimal_def is_digit_def digits_val_def digit_val_def)

text \<open>
  Claim C4. For every input text the parser returns what the specification describes:
  the text is split on commas, the pieces are trimmed and the empty ones dropped; the
  values are the converted tokens in the order of the tokens, and there is exactly one
  warning for each token that does not convert, in the order of the tokens, the
  remaining tokens being processed all the same. The warning is the sentence of line
  102 with the token between quotes, so it names the token. Every token ends up
  either as a value or as a warning. Parsing \<open>4, abc, 7\<close> gives the values 4 and 7 and
  one warning naming \<open>abc\<close>.
\<close>

theorem parse_numbers_correct:
  "parse_numbers conv s = spec_parse_numbers conv s \<and>
   parse_numbers conv s =
     (List.map_filter conv (tokens s),
      map (\<lambda>t. ''No se pudo interpretar '' @ [CHR 0x27] @ t @ [CHR 0x27] @
                '' como un n'' @ [CHR 0xFA] @ ''mero; se ignora.'')
        (filter (\<lambda>t. conv t = None) (tokens s))) \<and>
   length (fst (parse_numbers conv s)) + length (snd (parse_numbers conv s)) =
     length (tokens s) \<and>
   (conv ''4'' = Some 4 \<and> conv ''abc'' = None \<and> conv ''7'' = Some 7 \<longrightarrow>
      parse_numbers conv ''4, abc, 7'' =
        ([4, 7],
         [''No se pudo interpretar '' @ [CHR 0x27] @ ''abc'' @ [CHR 0x27] @
          '' como un n'' @ [CHR 0xFA] @ ''mero; se ignora.'']))"
proof -
  have w: "warning_msg = (\<lambda>t. ''No se pudo interpretar '' @ [CHR 0x27] @ t @ [CHR 0x27] @
                '' como un n'' @ [CHR 0xFA] @ ''mero; se ignora.'')"
    by (rule ext) (simp add: warning_msg_def)
  have 1: "parse_numbers conv s =
     (List.map_filter conv (tokens s),
      map warning_msg (filter (\<lambda>t. conv t = None) (tokens s)))" for s
    using parse_numbers_refines by (simp add: spec_parse_numbers_def)
  have 2: "length (fst (parse_numbers conv s)) + length (snd (parse_numbers conv s)) =
     length (tokens s)"
    by (simp add: 1 map_filter_length)
  have 3: "conv ''4'' = Some 4 \<and> conv ''abc'' = None \<and> conv ''7'' = Some 7 \<longrightarrow>
      parse_numbers conv ''4, abc, 7'' = ([4, 7], [warning_msg ''abc''])"
    by (simp add: 1 tokens_example List.map_filter_simps)
  from parse_numbers_refines[of conv s] 1[of s] 2 3 show ?thesis
    unfolding w by blast
qed

theorem parse_numbers_correct_witness:
  "decimal_float ''4'' = Some 4 \<and> decimal_float ''abc'' = None \<and>
   decimal_float ''7'' = Some 7 \<and>
   parse_numbers decimal_float ''4, abc, 7'' =
     ([4, 7],
      [''No se pudo interpretar '' @ [CHR 0x27] @ ''abc'' @ [CHR 0x27] @
       '' como un n'' @ [CHR 0xFA] @ ''mero; se ignora.''])"
proof -
  have h: "decimal_float ''4'' = Some 4 \<and> decimal_float ''abc'' = None \<and>
           decimal_float ''7'' = Some 7"
    by (simp add: decimal_float_4 decimal_float_7 decimal_float_abc)
  from parse_numbers_correct[of decimal_float "''4, abc, 7''"] h show ?thesis by blast
qed

section \<open>The render cycle: properties\<close>

lemma find_extrema_no_raise:
  "0 \<le> GM \<Longrightarrow> \<exists>pts. find_extrema GM l r_min r_max = Inr pts"
proof -
  assume g: "0 \<le> GM"
  have "0 \<le> 2 * sqrt 3 * GM" using g by simp
  then have "2 * sqrt 3 * GM < l \<Longrightarrow> l \<noteq> 0" by linarith
  then show ?thesis by (auto simp: find_extrema_def Let_def)
qed

lemma py_pow2_no_overflow: "x ^ 2 < float_inf_threshold \<Longrightarrow> \<exists>q. py_pow2 x = Inr q"
  by (simp add: py_pow2_def)

lemma massive_loop_overflow:
  "float_inf_threshold \<le> l ^ 2 \<Longrightarrow>
   massive_loop GM newt r r_min r_max (l # ls) (cs, es) = Inl OverflowError"
  by (simp add: py_pow2_def)

lemma massive_loop_ok:
  "0 \<le> GM \<Longrightarrow> \<forall>l\<in>set ls. l ^ 2 < float_inf_threshold \<Longrightarrow>
   \<exists>cs es. massive_loop GM newt r r_min r_max ls (cs0, es0) = Inr (cs0 @ cs, es0 @ es) \<and>
      map curve_l (filter (\<lambda>c. \<not> curve_newtonian c) cs) = ls"
proof (induction ls arbitrary: cs0 es0)
  case Nil then show ?case by simp
next
  case (Cons l ls)
  from Cons.prems(2) have l: "l ^ 2 < float_inf_threshold"
    and ls: "\<forall>l\<in>set ls. l ^ 2 < float_inf_threshold" by simp_all
  obtain q where q: "py_pow2 l = Inr q" using py_pow2_no_overflow[OF l] by blast
  obtain pts where pts: "find_extrema GM l r_min r_max = Inr pts"
    using find_extrema_no_raise[OF Cons.prems(1)] by blast
  define c1 where
    "c1 = \<lparr>curve_l = l, curve_newtonian = False, curve_V = map (\<lambda>x. V_eff x GM l) r\<rparr>"
  define c2 where
    "c2 = (if newt then [\<lparr>curve_l = l, curve_newtonian = True,
                           curve_V = map (\<lambda>x. V_eff_newton x GM l) r\<rparr>] else [])"
  from Cons.IH[OF Cons.prems(1) ls, of "cs0 @ c1 # c2" "es0 @ pts"] obtain cs es where
    ih: "massive_loop GM newt r r_min r_max ls (cs0 @ c1 # c2, es0 @ pts) =
           Inr ((cs0 @ c1 # c2) @ cs, (es0 @ pts) @ es)"
        "map curve_l (filter (\<lambda>c. \<not> curve_newtonian c) cs) = ls" by blast
  have A: "massive_loop GM newt r r_min r_max (l # ls) (cs0, es0) =
             Inr (cs0 @ (c1 # c2 @ cs), es0 @ (pts @ es))"
    using ih(1) pts q by (cases newt) (simp_all add: c1_def c2_def Let_def)
  have B: "map curve_l (filter (\<lambda>c. \<not> curve_newtonian c) (c1 # c2 @ cs)) = l # ls"
    using ih(2) by (simp add: c1_def c2_def)
  show ?case
    by (rule exI[of _ "c1 # c2 @ cs"], rule exI[of _ "pts @ es"]) (simp only: A B)
qed

lemma photon_loop_ok:
  "\<forall>b\<in>set bs. float_zero_threshold < b ^ 2 \<and> b ^ 2 < float_inf_threshold \<Longrightarrow>
   \<exists>cs. photon_loop 1 bs acc = Inr (acc @ cs) \<and> map b_value cs = bs"
proof (induction bs arbitrary: acc)
  case Nil then show ?case by simp
next
  case (Cons b bs)
  then have b: "float_zero_threshold < b ^ 2" "b ^ 2 < float_inf_threshold"
    and bs: "\<forall>b\<in>set bs. float_zero_threshold < b ^ 2 \<and> b ^ 2 < float_inf_threshold"
    by simp_all
  from classify_in_range[OF b]
  obtain c where c: "classify_impact_parameter b 1 = Inr c" "b_value c = b" by blast
  from Cons.IH[OF bs, of "acc @ [c]"] obtain cs where
    "photon_loop 1 bs (acc @ [c]) = Inr (acc @ [c] @ cs)" "map b_value cs = bs" by auto
  with c show ?case by (intro exI[of _ "c # cs"]) simp
qed

lemma photon_loop_append:
  "photon_loop GM pre acc = Inr acc' \<Longrightarrow> photon_loop GM (pre @ bs) acc = photon_loop GM bs acc'"
  by (induction pre arbitrary: acc) (auto split: sum.splits)

lemma photon_loop_zero_first: "photon_loop GM (0 # bs) acc = Inl ZeroDivisionError"
  by (simp add: classify_zero)

lemma photon_loop_zero_after:
  assumes "\<forall>b\<in>set pre. float_zero_threshold < b ^ 2 \<and> b ^ 2 < float_inf_threshold"
  shows "photon_loop 1 (pre @ 0 # post) acc = Inl ZeroDivisionError"
proof -
  from photon_loop_ok[OF assms, of acc] obtain cs where
    "photon_loop 1 pre acc = Inr (acc @ cs)" by blast
  from photon_loop_append[OF this, of "0 # post"] show ?thesis
    by (simp only: photon_loop_zero_first)
qed

lemma photon_loop_has_zero: "0 \<in> set bs \<Longrightarrow> \<exists>e. photon_loop GM bs acc = Inl e"
proof (induction bs arbitrary: acc)
  case Nil then show ?case by simp
next
  case (Cons b bs)
  show ?case
  proof (cases "classify_impact_parameter b GM")
    case (Inl e) then show ?thesis by simp
  next
    case (Inr c)
    then have "b \<noteq> 0" using classify_zero[of GM] by auto
    with Cons.prems have "0 \<in> set bs" by simp
    from Cons.IH[OF this, of "acc @ [c]"] Inr show ?thesis by simp
  qed
qed

lemma landmarks_no_raise: "\<exists>ms. photon_landmarks GM_value r_min r_max = Inr ms"
  using photon_landmarks_window[of 1 r_min r_max] by (simp add: GM_value_def)

lemma render_massive_empty:
  "parse_numbers conv (param_str w) = ([], ws) \<Longrightarrow>
   render_massive conv w = \<lparr>warnings = ws, outcome = Stopped empty_l_error\<rparr>"
  by (simp add: render_massive_def Let_def)

lemma render_photon_empty:
  "parse_numbers conv (param_str w) = ([], ws) \<Longrightarrow>
   render_photon conv w = \<lparr>warnings = ws, outcome = Stopped empty_b_error\<rparr>"
  by (simp add: render_photon_def Let_def)

lemma render_massive_runs:
  assumes p: "parse_numbers conv (param_str w) = (vs, ws)" and ne: "vs \<noteq> []"
  shows "warnings (render_massive conv w) = ws \<and>
         (\<forall>m. outcome (render_massive conv w) \<noteq> Stopped m) \<and>
         ((\<forall>l\<in>set vs. l ^ 2 < float_inf_threshold) \<longrightarrow>
            (\<exists>p. outcome (render_massive conv w) = Plotted p \<and>
                 map curve_l (filter (\<lambda>c. \<not> curve_newtonian c) (m_curves p)) = vs))"
proof -
  define r where "r = map (\<lambda>x. x * GM_value)
    (linspace (r_min_over_GM w * GM_value) (r_max_over_GM w * GM_value) num_points)"
  define res where "res = massive_loop GM_value (show_newtonian w) r
    (r_min_over_GM w * GM_value) (r_max_over_GM w * GM_value) vs ([], [])"
  have g: "0 \<le> GM_value" by (simp add: GM_value_def)
  have ok: "\<exists>cs es. res = Inr (cs, es) \<and>
              map curve_l (filter (\<lambda>c. \<not> curve_newtonian c) cs) = vs"
    if "\<forall>l\<in>set vs. l ^ 2 < float_inf_threshold"
    using massive_loop_ok[OF g that, of "show_newtonian w" r "r_min_over_GM w * GM_value"
        "r_max_over_GM w * GM_value" "[]" "[]"]
    by (simp add: res_def)
  show ?thesis
  proof (cases res)
    case (Inl e)
    with ok have "\<not> (\<forall>l\<in>set vs. l ^ 2 < float_inf_threshold)" by auto
    with Inl p ne show ?thesis
      by (simp add: render_massive_def Let_def r_def[symmetric] res_def[symmetric])
  next
    case (Inr ce)
    obtain cs es where ce: "ce = (cs, es)" by (cases ce)
    have "(\<forall>l\<in>set vs. l ^ 2 < float_inf_threshold) \<longrightarrow>
            map curve_l (filter (\<lambda>c. \<not> curve_newtonian c) cs) = vs"
      using ok Inr ce by auto
    with Inr ce p ne show ?thesis
      by (simp add: render_massive_def Let_def r_def[symmetric] res_def[symmetric])
  qed
qed

lemma render_photon_runs:
  assumes p: "parse_numbers conv (param_str w) = (vs, ws)" and ne: "vs \<noteq> []"
  shows "warnings (render_photon conv w) = ws \<and>
         (\<forall>m. outcome (render_photon conv w) \<noteq> Stopped m) \<and>
         ((\<forall>b\<in>set vs. float_zero_threshold < b ^ 2 \<and> b ^ 2 < float_inf_threshold) \<longrightarrow>
            (\<exists>p. outcome (render_photon conv w) = Plotted p \<and> map b_value (p_levels p) = vs))"
proof -
  obtain ms where ms: "photon_landmarks GM_value (r_min_over_GM w * GM_value)
      (r_max_over_GM w * GM_value) = Inr ms"
    using landmarks_no_raise by blast
  have ok: "\<exists>cs. photon_loop GM_value vs [] = Inr cs \<and> map b_value cs = vs"
    if "\<forall>b\<in>set vs. float_zero_threshold < b ^ 2 \<and> b ^ 2 < float_inf_threshold"
    using photon_loop_ok[OF that, of "[]"] by (simp add: GM_value_def)
  show ?thesis
  proof (cases "photon_loop GM_value vs []")
    case (Inl e)
    with ok have "\<not> (\<forall>b\<in>set vs. float_zero_threshold < b ^ 2 \<and> b ^ 2 < float_inf_threshold)"
      by auto
    with Inl p ne ms show ?thesis by (simp add: render_photon_def Let_def)
  next
    case (Inr cs)
    have "(\<forall>b\<in>set vs. float_zero_threshold < b ^ 2 \<and> b ^ 2 < float_inf_threshold) \<longrightarrow>
            map b_value cs = vs"
      using ok Inr by auto
    with Inr p ne ms show ?thesis by (simp add: render_photon_def Let_def)
  qed
qed

lemma render_photon_raises:
  assumes p: "parse_numbers conv (param_str w) = (vs, ws)"
    and l: "photon_loop GM_value vs [] = Inl e"
  shows "render_photon conv w = \<lparr>warnings = ws, outcome = Raised e\<rparr>"
proof -
  from l have ne: "vs \<noteq> []" by auto
  obtain ms where ms: "photon_landmarks GM_value (r_min_over_GM w * GM_value)
      (r_max_over_GM w * GM_value) = Inr ms"
    using landmarks_no_raise by blast
  from p ne ms l show ?thesis by (simp add: render_photon_def Let_def)
qed

text \<open>
  Claim C5. When the parse of the text field yields no value, both scripts show their
  error message, the sentences of lines 105 and 110, and stop: the outcome of the cycle
  is the message, with no grid, no curve and no plot, and the warnings of the parse
  have been shown. When at least one value parses, the warnings of the parse are shown
  as well and the cycle goes past the stop. It then ends with a plot made from every
  value, in order, whenever the Python floats stay in range: in the massive script
  when no square \<open>l\<^sup>2\<close> is too large for a float, in the photon script when neither a
  square \<open>b\<^sup>2\<close> nor its inverse is.
\<close>

theorem render_cycle_empty_input:
  "(fst (parse_numbers conv (param_str w)) = [] \<longrightarrow>
      render_massive conv w =
        \<lparr>warnings = snd (parse_numbers conv (param_str w)),
         outcome = Stopped (''Por favor ingresa al menos un valor v'' @ [CHR 0xE1] @ ''lido para $'' @
                     [CHR 0x5C] @ ''ell$.'')\<rparr> \<and>
      render_photon conv w =
        \<lparr>warnings = snd (parse_numbers conv (param_str w)),
         outcome = Stopped (''Por favor ingresa al menos un valor v'' @ [CHR 0xE1] @ ''lido para $b$.'')\<rparr>) \<and>
   (fst (parse_numbers conv (param_str w)) \<noteq> [] \<longrightarrow>
      warnings (render_massive conv w) = snd (parse_numbers conv (param_str w)) \<and>
      (\<forall>m. outcome (render_massive conv w) \<noteq> Stopped m) \<and>
      ((\<forall>l\<in>set (fst (parse_numbers conv (param_str w))). l ^ 2 < 2 ^ 1024 - 2 ^ 970) \<longrightarrow>
         (\<exists>p. outcome (render_massive conv w) = Plotted p \<and>
              map curve_l (filter (\<lambda>c. \<not> curve_newtonian c) (m_curves p)) =
                fst (parse_numbers conv (param_str w)))) \<and>
      warnings (render_photon conv w) = snd (parse_numbers conv (param_str w)) \<and>
      (\<forall>m. outcome (render_photon conv w) \<noteq> Stopped m) \<and>
      ((\<forall>b\<in>set (fst (parse_numbers conv (param_str w))).
           1 / (2 ^ 1024 - 2 ^ 970) < b ^ 2 \<and> b ^ 2 < 2 ^ 1024 - 2 ^ 970) \<longrightarrow>
         (\<exists>p. outcome (render_photon conv w) = Plotted p \<and>
              map b_value (p_levels p) = fst (parse_numbers conv (param_str w)))))"
proof -
  obtain vs ws where p: "parse_numbers conv (param_str w) = (vs, ws)"
    by (cases "parse_numbers conv (param_str w)")
  show ?thesis
  proof (cases "vs = []")
    case True
    with p show ?thesis
      using render_massive_empty[of conv w ws] render_photon_empty[of conv w ws]
      by (simp add: empty_l_error_def empty_b_error_def)
  next
    case False
    have n: "float_zero_threshold < x" if "1 / (2 ^ 1024 - 2 ^ 970) < x" for x :: real
      using that thresholds(4) by (simp add: float_inf_threshold_def)
    from render_massive_runs[OF p False] render_photon_runs[OF p False] p False n
    show ?thesis
      unfolding float_inf_threshold_def by auto
  qed
qed

theorem render_cycle_empty_input_witness:
  "render_massive decimal_float
     \<lparr>param_str = ''abc'', show_newtonian = False, r_min_over_GM = 5 / 2,
       r_max_over_GM = 500, ylim = Some (- 1 / 20, 1 / 50)\<rparr> =
     \<lparr>warnings = [warning_msg ''abc''],
      outcome = Stopped (''Por favor ingresa al menos un valor v'' @ [CHR 0xE1] @ ''lido para $'' @
                     [CHR 0x5C] @ ''ell$.'')\<rparr> \<and>
   render_photon decimal_float
     \<lparr>param_str = ''abc'', show_newtonian = False, r_min_over_GM = 5 / 2,
       r_max_over_GM = 500, ylim = Some (- 1 / 20, 1 / 50)\<rparr> =
     \<lparr>warnings = [warning_msg ''abc''],
      outcome = Stopped (''Por favor ingresa al menos un valor v'' @ [CHR 0xE1] @ ''lido para $b$.'')\<rparr> \<and>
   warnings (render_massive decimal_float
     \<lparr>param_str = ''4, abc, 7'', show_newtonian = True, r_min_over_GM = 3 / 2,
       r_max_over_GM = 15, ylim = None\<rparr>) = [warning_msg ''abc''] \<and>
   (\<exists>p. outcome (render_massive decimal_float
     \<lparr>param_str = ''4, abc, 7'', show_newtonian = True, r_min_over_GM = 3 / 2,
       r_max_over_GM = 15, ylim = None\<rparr>) = Plotted p \<and>
        map curve_l (filter (\<lambda>c. \<not> curve_newtonian c) (m_curves p)) = [4, 7]) \<and>
   warnings (render_photon decimal_float
     \<lparr>param_str = ''4, abc, 7'', show_newtonian = True, r_min_over_GM = 3 / 2,
       r_max_over_GM = 15, ylim = None\<rparr>) = [warning_msg ''abc''] \<and>
   (\<exists>p. outcome (render_photon decimal_float
     \<lparr>param_str = ''4, abc, 7'', show_newtonian = True, r_min_over_GM = 3 / 2,
       r_max_over_GM = 15, ylim = None\<rparr>) = Plotted p \<and>
        map b_value (p_levels p) = [4, 7])"
proof -
  have a: "parse_numbers decimal_float ''abc'' = ([], [warning_msg ''abc''])"
    by (simp add: parse_numbers_refines spec_parse_numbers_def tokens_def strip_def is_space_def
        List.map_filter_simps decimal_float_abc)
  have b: "parse_numbers decimal_float ''4, abc, 7'' = ([4, 7], [warning_msg ''abc''])"
    by (simp add: parse_numbers_refines spec_parse_numbers_def tokens_example
        List.map_filter_simps decimal_float_4 decimal_float_7 decimal_float_abc)
  have r: "\<forall>x\<in>set [4, 7 :: real]. 1 / (2 ^ 1024 - 2 ^ 970) < x ^ 2 \<and> x ^ 2 < 2 ^ 1024 - 2 ^ 970"
    by simp
  then have r': "\<forall>x\<in>set [4, 7 :: real]. x ^ 2 < 2 ^ 1024 - 2 ^ 970" by blast
  note A = render_cycle_empty_input[of decimal_float
        "\<lparr>param_str = ''abc'', show_newtonian = False, r_min_over_GM = 5 / 2,
       r_max_over_GM = 500, ylim = Some (- 1 / 20, 1 / 50)\<rparr>"]
  note B = render_cycle_empty_input[of decimal_float
        "\<lparr>param_str = ''4, abc, 7'', show_newtonian = True, r_min_over_GM = 3 / 2,
       r_max_over_GM = 15, ylim = None\<rparr>"]
  from A have 1: "render_massive decimal_float
     \<lparr>param_str = ''abc'', show_newtonian = False, r_min_over_GM = 5 / 2,
       r_max_over_GM = 500, ylim = Some (- 1 / 20, 1 / 50)\<rparr> =
     \<lparr>warnings = [warning_msg ''abc''],
      outcome = Stopped (''Por favor ingresa al menos un valor v'' @ [CHR 0xE1] @ ''lido para $'' @
                     [CHR 0x5C] @ ''ell$.'')\<rparr>"
    and 2: "render_photon decimal_float
     \<lparr>param_str = ''abc'', show_newtonian = False, r_min_over_GM = 5 / 2,
       r_max_over_GM = 500, ylim = Some (- 1 / 20, 1 / 50)\<rparr> =
     \<lparr>warnings = [warning_msg ''abc''],
      outcome = Stopped (''Por favor ingresa al menos un valor v'' @ [CHR 0xE1] @ ''lido para $b$.'')\<rparr>"
    by (simp_all add: a)
  from B r r' have 3: "warnings (render_massive decimal_float
     \<lparr>param_str = ''4, abc, 7'', show_newtonian = True, r_min_over_GM = 3 / 2,
       r_max_over_GM = 15, ylim = None\<rparr>) = [warning_msg ''abc'']"
    and 4: "\<exists>p. outcome (render_massive decimal_float
     \<lparr>param_str = ''4, abc, 7'', show_newtonian = True, r_min_over_GM = 3 / 2,
       r_max_over_GM = 15, ylim = None\<rparr>) = Plotted p \<and>
        map curve_l (filter (\<lambda>c. \<not> curve_newtonian c) (m_curves p)) = [4, 7]"
    and 5: "warnings (render_photon decimal_float
     \<lparr>param_str = ''4, abc, 7'', show_newtonian = True, r_min_over_GM = 3 / 2,
       r_max_over_GM = 15, ylim = None\<rparr>) = [warning_msg ''abc'']"
    and 6: "\<exists>p. outcome (render_photon decimal_float
     \<lparr>param_str = ''4, abc, 7'', show_newtonian = True, r_min_over_GM = 3 / 2,
       r_max_over_GM = 15, ylim = None\<rparr>) = Plotted p \<and>
        map b_value (p_levels p) = [4, 7]"
    by (simp_all add: b)
  from 1 2 3 4 5 6 show ?thesis by blast
qed

text \<open>
  Claim C10. A zero impact parameter reaches the division of line 157 unguarded: the
  classification of \<open>b = 0\<close> raises \<^verbatim>\<open>ZeroDivisionError\<close> for every \<open>GM\<close>; a parsed list that
  contains 0 never gives a plot, and the run ends with that exception once the loop
  reaches the zero, which it does when the values before it have squares and inverse
  squares in the range of the floats; and the text \<open>0\<close>, which the parser accepts as the value 0 without a
  warning, is such an input.
\<close>

theorem zero_impact_parameter_raises:
  "classify_impact_parameter 0 GM = Inl ZeroDivisionError \<and>
   (0 \<in> set (fst (parse_numbers conv (param_str w))) \<longrightarrow>
      (\<exists>e. outcome (render_photon conv w) = Raised e)) \<and>
   (fst (parse_numbers conv (param_str w)) = pre @ 0 # post \<and>
    (\<forall>b\<in>set pre. 1 / (2 ^ 1024 - 2 ^ 970) < b ^ 2 \<and> b ^ 2 < 2 ^ 1024 - 2 ^ 970) \<longrightarrow>
      outcome (render_photon conv w) = Raised ZeroDivisionError) \<and>
   (conv ''0'' = Some 0 \<longrightarrow>
      parse_numbers conv ''0'' = ([0], []) \<and>
      render_photon conv (w\<lparr>param_str := ''0''\<rparr>) =
        \<lparr>warnings = [], outcome = Raised ZeroDivisionError\<rparr>)"
proof -
  obtain vs ws where p: "parse_numbers conv (param_str w) = (vs, ws)"
    by (cases "parse_numbers conv (param_str w)")
  have a: "0 \<in> set (fst (parse_numbers conv (param_str w))) \<longrightarrow>
      (\<exists>e. outcome (render_photon conv w) = Raised e)"
  proof
    assume "0 \<in> set (fst (parse_numbers conv (param_str w)))"
    with p have "0 \<in> set vs" by simp
    from photon_loop_has_zero[OF this, of GM_value "[]"] obtain e where
      "photon_loop GM_value vs [] = Inl e" by blast
    from render_photon_raises[OF p this]
    show "\<exists>e. outcome (render_photon conv w) = Raised e" by simp
  qed
  have b: "fst (parse_numbers conv (param_str w)) = pre @ 0 # post \<and>
    (\<forall>b\<in>set pre. 1 / (2 ^ 1024 - 2 ^ 970) < b ^ 2 \<and> b ^ 2 < 2 ^ 1024 - 2 ^ 970) \<longrightarrow>
      outcome (render_photon conv w) = Raised ZeroDivisionError"
  proof
    assume h: "fst (parse_numbers conv (param_str w)) = pre @ 0 # post \<and>
      (\<forall>b\<in>set pre. 1 / (2 ^ 1024 - 2 ^ 970) < b ^ 2 \<and> b ^ 2 < 2 ^ 1024 - 2 ^ 970)"
    with p have vs: "vs = pre @ 0 # post" by simp
    have n: "float_zero_threshold < x" if "1 / (2 ^ 1024 - 2 ^ 970) < x" for x :: real
      using that thresholds(4) by (simp add: float_inf_threshold_def)
    from h n have "\<forall>b\<in>set pre. float_zero_threshold < b ^ 2 \<and> b ^ 2 < float_inf_threshold"
      by (auto simp: float_inf_threshold_def)
    from photon_loop_zero_after[OF this, of post "[]"]
    have "photon_loop GM_value vs [] = Inl ZeroDivisionError"
      by (simp add: vs GM_value_def)
    from render_photon_raises[OF p this]
    show "outcome (render_photon conv w) = Raised ZeroDivisionError" by simp
  qed
  have c: "conv ''0'' = Some 0 \<longrightarrow>
      parse_numbers conv ''0'' = ([0], []) \<and>
      render_photon conv (w\<lparr>param_str := ''0''\<rparr>) =
        \<lparr>warnings = [], outcome = Raised ZeroDivisionError\<rparr>"
  proof
    assume c: "conv ''0'' = Some 0"
    have t: "tokens ''0'' = [''0'']" by (simp add: tokens_def strip_def is_space_def)
    have p0: "parse_numbers conv ''0'' = ([0], [])"
      using c by (simp add: parse_numbers_refines spec_parse_numbers_def t List.map_filter_simps)
    then have p1: "parse_numbers conv (param_str (w\<lparr>param_str := ''0''\<rparr>)) = ([0], [])"
      by simp
    have "photon_loop GM_value [0] [] = Inl ZeroDivisionError"
      by (rule photon_loop_zero_first)
    from render_photon_raises[OF p1 this] p0
    show "parse_numbers conv ''0'' = ([0], []) \<and>
      render_photon conv (w\<lparr>param_str := ''0''\<rparr>) =
        \<lparr>warnings = [], outcome = Raised ZeroDivisionError\<rparr>"
      by simp
  qed
  from classify_zero[of GM] a b c show ?thesis by blast
qed

theorem zero_impact_parameter_raises_witness:
  "decimal_float ''0'' = Some 0 \<and>
   parse_numbers decimal_float ''0'' = ([0], []) \<and>
   render_photon decimal_float
     \<lparr>param_str = ''0'', show_newtonian = False, r_min_over_GM = 3 / 2,
       r_max_over_GM = 15, ylim = Some (0, 7 / 100)\<rparr> =
     \<lparr>warnings = [], outcome = Raised ZeroDivisionError\<rparr> \<and>
   parse_numbers decimal_float ''6, 0'' = ([6, 0], []) \<and>
   (1::real) / (2 ^ 1024 - 2 ^ 970) < 6 ^ 2 \<and> (6::real) ^ 2 < 2 ^ 1024 - 2 ^ 970 \<and>
   outcome (render_photon decimal_float
     \<lparr>param_str = ''6, 0'', show_newtonian = False, r_min_over_GM = 3 / 2,
       r_max_over_GM = 15, ylim = Some (0, 7 / 100)\<rparr>) = Raised ZeroDivisionError"
proof -
  have h: "decimal_float ''0'' = Some 0" by (rule decimal_float_0)
  from zero_impact_parameter_raises[of 1 decimal_float
      "\<lparr>param_str = ''0'', show_newtonian = False, r_min_over_GM = 3 / 2,
       r_max_over_GM = 15, ylim = Some (0, 7 / 100)\<rparr>"] h
  have 1: "parse_numbers decimal_float ''0'' = ([0], [])"
    and 2: "render_photon decimal_float
      (\<lparr>param_str = ''0'', show_newtonian = False, r_min_over_GM = 3 / 2,
       r_max_over_GM = 15, ylim = Some (0, 7 / 100)\<rparr>\<lparr>param_str := ''0''\<rparr>) =
     \<lparr>warnings = [], outcome = Raised ZeroDivisionError\<rparr>"
    by blast+
  have t: "tokens ''6, 0'' = [''6'', ''0'']" by (simp add: tokens_def strip_def is_space_def)
  have p: "parse_numbers decimal_float ''6, 0'' = ([6, 0], [])"
    by (simp add: parse_numbers_refines spec_parse_numbers_def t List.map_filter_simps
        decimal_float_6 decimal_float_0)
  have r: "(1::real) / (2 ^ 1024 - 2 ^ 970) < 6 ^ 2 \<and> (6::real) ^ 2 < 2 ^ 1024 - 2 ^ 970" by simp
  then have r': "\<forall>b\<in>set [6::real]. 1 / (2 ^ 1024 - 2 ^ 970) < b ^ 2 \<and> b ^ 2 < 2 ^ 1024 - 2 ^ 970" by simp
  from zero_impact_parameter_raises[of 1 decimal_float
      "\<lparr>param_str = ''6, 0'', show_newtonian = False, r_min_over_GM = 3 / 2,
       r_max_over_GM = 15, ylim = Some (0, 7 / 100)\<rparr>" "[6]" "[]"] p r'
  have 3: "outcome (render_photon decimal_float
     \<lparr>param_str = ''6, 0'', show_newtonian = False, r_min_over_GM = 3 / 2,
       r_max_over_GM = 15, ylim = Some (0, 7 / 100)\<rparr>) = Raised ZeroDivisionError"
    by simp
  from h 1 2 p r 3 show ?thesis by simp
qed

end
